theory Spec2Isabelle
  imports Complex_Main "HOL-Library.Sublist" "HOL-Library.Log_Nat"
begin

section \<open>Python values\<close>

text \<open>
  Every component reads a document produced by \<^verbatim>\<open>json.loads\<close> and answers with a
  dictionary that \<^verbatim>\<open>json.dumps\<close> prints. Both are modelled by one datatype of JSON
  values. A Python \<^verbatim>\<open>str\<close> is a \<open>string\<close> holding its UTF-8 bytes, a Python \<^verbatim>\<open>int\<close>
  is an unbounded \<open>int\<close>, a Python \<^verbatim>\<open>float\<close> is a \<open>pyfloat\<close>: a finite value (the
  rational it denotes), an infinity or a NaN. A \<^verbatim>\<open>dict\<close> is an association list in
  insertion order; the dictionaries that \<^verbatim>\<open>json.loads\<close> builds have distinct keys.
\<close>

datatype pyfloat = FVal rat | FPosInf | FNegInf | FNaN

datatype json =
    JNull
  | JBool bool
  | JInt int
  | JFloat pyfloat
  | JStr string
  | JArr "json list"
  | JObj "(string \<times> json) list"

type_synonym pydict = "(string \<times> json) list"

text \<open>The exceptions that the modelled code can raise.\<close>

datatype error = TypeError | AttributeError | KeyError | OverflowError | ZeroDivisionError

definition bindE :: "error + 'a \<Rightarrow> ('a \<Rightarrow> error + 'b) \<Rightarrow> error + 'b" where
  "bindE m f = (case m of Inl e \<Rightarrow> Inl e | Inr x \<Rightarrow> f x)"

text \<open>\<^verbatim>\<open>key in d\<close>, \<^verbatim>\<open>d.get(key)\<close> and \<^verbatim>\<open>d[key]\<close> on a dictionary.\<close>

definition has_key :: "pydict \<Rightarrow> string \<Rightarrow> bool" where
  "has_key d k = (k \<in> set (map fst d))"

definition dict_get :: "pydict \<Rightarrow> string \<Rightarrow> json" where
  "dict_get d k = (case map_of d k of None \<Rightarrow> JNull | Some v \<Rightarrow> v)"

definition dict_item :: "pydict \<Rightarrow> string \<Rightarrow> error + json" where
  "dict_item d k = (case map_of d k of None \<Rightarrow> Inl KeyError | Some v \<Rightarrow> Inr v)"

text \<open>\<^verbatim>\<open>x[key]\<close> with a string key on any value: only a dictionary can be indexed so.\<close>

fun getitem :: "json \<Rightarrow> string \<Rightarrow> error + json" where
  "getitem (JObj d) k = dict_item d k"
| "getitem _ k = Inl TypeError"

text \<open>Truth value testing (\<^verbatim>\<open>not x\<close>, \<^verbatim>\<open>if x\<close>); a NaN is true, both zeros are false.\<close>

fun truthy :: "json \<Rightarrow> bool" where
  "truthy JNull = False"
| "truthy (JBool b) = b"
| "truthy (JInt i) = (i \<noteq> 0)"
| "truthy (JFloat f) = (f \<noteq> FVal 0)"
| "truthy (JStr s) = (s \<noteq> [])"
| "truthy (JArr xs) = (xs \<noteq> [])"
| "truthy (JObj d) = (d \<noteq> [])"

text \<open>
  \<^verbatim>\<open>x in xs\<close> on a list of strings compares with \<^verbatim>\<open>==\<close>: only a string equals a string.
\<close>

definition in_str_list :: "json \<Rightarrow> string list \<Rightarrow> bool" where
  "in_str_list x xs = (x \<in> set (map JStr xs))"

text \<open>\<^verbatim>\<open>sep.join(xs)\<close>.\<close>

fun join :: "string \<Rightarrow> string list \<Rightarrow> string" where
  "join sep [] = []"
| "join sep [x] = x"
| "join sep (x # y # ys) = x @ sep @ join sep (y # ys)"

text \<open>
  \<^verbatim>\<open>key in x\<close> for a string key and any value: key membership in a dictionary,
  element membership in a list, substring test in a string, \<^verbatim>\<open>TypeError\<close> otherwise.
\<close>

fun py_contains :: "json \<Rightarrow> string \<Rightarrow> error + bool" where
  "py_contains (JObj d) k = Inr (has_key d k)"
| "py_contains (JArr xs) k = Inr (JStr k \<in> set xs)"
| "py_contains (JStr s) k = Inr (sublist k s)"
| "py_contains _ k = Inl TypeError"

text \<open>\<^verbatim>\<open>x.items()\<close>: only a dictionary has the method.\<close>

fun py_items :: "json \<Rightarrow> error + (string \<times> json) list" where
  "py_items (JObj d) = Inr d"
| "py_items _ = Inl AttributeError"

text \<open>
  Iteration and \<^verbatim>\<open>len\<close>. A string is iterated character by character: a character
  is a lead byte with the continuation bytes (\<open>0x80\<close> to \<open>0xBF\<close>) that follow it.
\<close>

definition is_continuation :: "char \<Rightarrow> bool" where
  "is_continuation c = (128 \<le> (of_char c :: nat) \<and> (of_char c :: nat) < 192)"

function utf8_chars :: "string \<Rightarrow> string list" where
  "utf8_chars [] = []"
| "utf8_chars (c # cs) =
     (c # takeWhile is_continuation cs) # utf8_chars (dropWhile is_continuation cs)"
  by pat_completeness auto
termination
  by (relation "measure length") (auto simp: less_Suc_eq_le length_dropWhile_le)

fun py_iter :: "json \<Rightarrow> error + json list" where
  "py_iter (JArr xs) = Inr xs"
| "py_iter (JObj d) = Inr (map (\<lambda>kv. JStr (fst kv)) d)"
| "py_iter (JStr s) = Inr (map JStr (utf8_chars s))"
| "py_iter _ = Inl TypeError"

fun py_len :: "json \<Rightarrow> error + nat" where
  "py_len (JArr xs) = Inr (length xs)"
| "py_len (JObj d) = Inr (length d)"
| "py_len (JStr s) = Inr (length (utf8_chars s))"
| "py_len _ = Inl TypeError"

text \<open>
  A \<^verbatim>\<open>for\<close> loop whose body appends to a list of issues: the body yields what one
  iteration appends, or the exception it raises, which ends the loop.
\<close>

primrec collectE :: "('a \<Rightarrow> error + 'b list) \<Rightarrow> 'a list \<Rightarrow> error + 'b list" where
  "collectE f [] = Inr []"
| "collectE f (x # xs) = bindE (f x) (\<lambda>ys. bindE (collectE f xs) (\<lambda>zs. Inr (ys @ zs)))"

text \<open>\<^verbatim>\<open>if key in doc: issues.extend(check(doc[key]))\<close>.\<close>

definition extend_if_present ::
    "pydict \<Rightarrow> string \<Rightarrow> (json \<Rightarrow> error + 'a list) \<Rightarrow> 'a list \<Rightarrow> error + 'a list" where
  "extend_if_present doc key check issues =
     (if has_key doc key then
        bindE (dict_item doc key) (\<lambda>v. bindE (check v) (\<lambda>new. Inr (issues @ new)))
      else Inr issues)"

text \<open>
  Decimal digits of an integer, as an f-string prints it. \<open>digit_char\<close> is applied
  to numbers below 10 only.
\<close>

definition digit_char :: "nat \<Rightarrow> char" where
  "digit_char d = ''0123456789'' ! d"

fun show_nat :: "nat \<Rightarrow> string" where
  "show_nat n = (if n < 10 then [digit_char n] else show_nat (n div 10) @ [digit_char (n mod 10)])"

declare show_nat.simps [simp del]

definition show_int :: "int \<Rightarrow> string" where
  "show_int i = (if i < 0 then CHR ''-'' # show_nat (nat (- i)) else show_nat (nat i))"

section \<open>Python numbers\<close>

text \<open>
  A \<^verbatim>\<open>float\<close> is an IEEE 754 double and every operation rounds to the nearest double,
  ties to the even significand. \<open>binade x\<close> is the \<open>e\<close> with \<open>2 powi e \<le> x < 2 powi (e + 1)\<close>
  for a positive \<open>x\<close>; a double of that binade is a multiple of \<open>2 powi (e - 52)\<close>, and
  of \<open>2 powi (- 1074)\<close> at least (the subnormal range). \<open>fl\<close> rounds a rational, and
  overflows to an infinity from \<open>double_overflow\<close> on. The two zeros are not told apart.
\<close>

definition round_half_even :: "rat \<Rightarrow> int" where
  "round_half_even x =
     (let n = \<lfloor>x\<rfloor>; r = x - of_int n
      in if r < 1 / 2 then n else if 1 / 2 < r then n + 1 else if even n then n else n + 1)"

definition binade :: "rat \<Rightarrow> int" where
  "binade x = (if 1 \<le> x then bitlen \<lfloor>x\<rfloor> - 1 else - bitlen (\<lceil>1 / x\<rceil> - 1))"

definition round_double :: "rat \<Rightarrow> rat" where
  "round_double x =
     (let s = max (binade x - 52) (- 1074)
      in of_int (round_half_even (x / 2 powi s)) * 2 powi s)"

definition double_overflow :: rat where
  "double_overflow = 2 ^ 1024"

definition fl :: "rat \<Rightarrow> pyfloat" where
  "fl x =
     (if x = 0 then FVal 0
      else let y = round_double \<bar>x\<bar>
           in if double_overflow \<le> y then (if 0 < x then FPosInf else FNegInf)
              else FVal (if 0 < x then y else - y))"

text \<open>
  The numbers among the JSON values; \<^verbatim>\<open>bool\<close> is a subclass of \<^verbatim>\<open>int\<close>. Any other
  operand of an arithmetic operator or of an ordering comparison with a number raises
  \<^verbatim>\<open>TypeError\<close>.
\<close>

datatype pynum = NBool bool | NInt int | NFloat pyfloat

fun num_of :: "json \<Rightarrow> error + pynum" where
  "num_of (JBool b) = Inr (NBool b)"
| "num_of (JInt i) = Inr (NInt i)"
| "num_of (JFloat f) = Inr (NFloat f)"
| "num_of _ = Inl TypeError"

fun int_of_bool :: "bool \<Rightarrow> int" where
  "int_of_bool True = 1"
| "int_of_bool False = 0"

text \<open>
  Comparisons between \<^verbatim>\<open>int\<close> and \<^verbatim>\<open>float\<close> are exact in Python, so a number is
  compared by the value it denotes; every comparison with a NaN is false.
\<close>

fun num_val :: "pynum \<Rightarrow> pyfloat" where
  "num_val (NBool b) = FVal (of_int (int_of_bool b))"
| "num_val (NInt i) = FVal (of_int i)"
| "num_val (NFloat f) = f"

fun float_less :: "pyfloat \<Rightarrow> pyfloat \<Rightarrow> bool" where
  "float_less FNaN _ = False"
| "float_less _ FNaN = False"
| "float_less (FVal x) (FVal y) = (x < y)"
| "float_less (FVal x) FPosInf = True"
| "float_less (FVal x) FNegInf = False"
| "float_less FPosInf _ = False"
| "float_less FNegInf FNegInf = False"
| "float_less FNegInf _ = True"

definition num_less :: "pynum \<Rightarrow> pynum \<Rightarrow> bool" where
  "num_less a b = float_less (num_val a) (num_val b)"

text \<open>
  \<^verbatim>\<open>a / b\<close> on two \<^verbatim>\<open>int\<close>s is the correctly rounded quotient, and raises
  \<^verbatim>\<open>OverflowError\<close> where that is too large for a double. Converting an \<^verbatim>\<open>int\<close> to
  \<^verbatim>\<open>float\<close> rounds and raises alike.
\<close>

definition int_truediv :: "int \<Rightarrow> int \<Rightarrow> error + pyfloat" where
  "int_truediv a b =
     (if b = 0 then Inl ZeroDivisionError
      else case fl (of_int a / of_int b) of
             FVal y \<Rightarrow> Inr (FVal y)
           | _ \<Rightarrow> Inl OverflowError)"

definition int_to_float :: "int \<Rightarrow> error + rat" where
  "int_to_float b = (case fl (of_int b) of FVal y \<Rightarrow> Inr y | _ \<Rightarrow> Inl OverflowError)"

text \<open>Division and multiplication of a \<^verbatim>\<open>float\<close> by a finite double \<open>y\<close>.\<close>

definition float_div :: "pyfloat \<Rightarrow> rat \<Rightarrow> error + pyfloat" where
  "float_div x y =
     (if y = 0 then Inl ZeroDivisionError
      else Inr (case x of
                  FVal v \<Rightarrow> fl (v / y)
                | FPosInf \<Rightarrow> (if 0 < y then FPosInf else FNegInf)
                | FNegInf \<Rightarrow> (if 0 < y then FNegInf else FPosInf)
                | FNaN \<Rightarrow> FNaN))"

fun float_mul :: "pyfloat \<Rightarrow> rat \<Rightarrow> pyfloat" where
  "float_mul (FVal v) y = fl (v * y)"
| "float_mul FPosInf y = (if 0 < y then FPosInf else if y < 0 then FNegInf else FNaN)"
| "float_mul FNegInf y = (if 0 < y then FNegInf else if y < 0 then FPosInf else FNaN)"
| "float_mul FNaN y = FNaN"

text \<open>\<^verbatim>\<open>x / b\<close> and \<^verbatim>\<open>x * b\<close> for a number \<open>x\<close> and an \<^verbatim>\<open>int\<close> \<open>b\<close>.\<close>

fun num_truediv_int :: "pynum \<Rightarrow> int \<Rightarrow> error + pyfloat" where
  "num_truediv_int (NBool a) b = int_truediv (int_of_bool a) b"
| "num_truediv_int (NInt a) b = int_truediv a b"
| "num_truediv_int (NFloat x) b = bindE (int_to_float b) (\<lambda>y. float_div x y)"

definition float_mul_int :: "pyfloat \<Rightarrow> int \<Rightarrow> error + pyfloat" where
  "float_mul_int x b = bindE (int_to_float b) (\<lambda>y. Inr (float_mul x y))"

text \<open>
  \<^verbatim>\<open>round(x, 1)\<close> on a \<^verbatim>\<open>float\<close>: the decimal with one digit after the point that is
  nearest to \<open>x\<close> (ties to the even digit), converted back to a double. An infinity or
  a NaN is returned as it is.
\<close>

fun py_round1 :: "pyfloat \<Rightarrow> error + pyfloat" where
  "py_round1 (FVal x) =
     (case fl (of_int (round_half_even (x * 10)) / 10) of
        FVal y \<Rightarrow> Inr (FVal y)
      | _ \<Rightarrow> Inl OverflowError)"
| "py_round1 x = Inr x"

text \<open>
  A number inside an f-string. The shortest decimal that \<^verbatim>\<open>repr\<close> prints for a
  \<^verbatim>\<open>float\<close> is not modelled: it is the parameter \<open>frepr\<close>.
\<close>

fun num_format :: "(pyfloat \<Rightarrow> string) \<Rightarrow> pynum \<Rightarrow> string" where
  "num_format frepr (NBool b) = (if b then ''True'' else ''False'')"
| "num_format frepr (NInt i) = show_int i"
| "num_format frepr (NFloat x) = frepr x"

text \<open>
  \<^verbatim>\<open>s.title()\<close> on ASCII letters: the first letter of every run of letters in upper
  case, the others in lower case. It is applied to keys of the bundle budget table only.
\<close>

definition is_lower :: "char \<Rightarrow> bool" where
  "is_lower c = (97 \<le> (of_char c :: nat) \<and> (of_char c :: nat) \<le> 122)"

definition is_upper :: "char \<Rightarrow> bool" where
  "is_upper c = (65 \<le> (of_char c :: nat) \<and> (of_char c :: nat) \<le> 90)"

definition to_upper :: "char \<Rightarrow> char" where
  "to_upper c = char_of ((of_char c :: nat) - 32)"

definition to_lower :: "char \<Rightarrow> char" where
  "to_lower c = char_of ((of_char c :: nat) + 32)"

fun title_from :: "bool \<Rightarrow> string \<Rightarrow> string" where
  "title_from previous_is_cased [] = []"
| "title_from previous_is_cased (c # cs) =
     (if is_lower c then (if previous_is_cased then c else to_upper c) # title_from True cs
      else if is_upper c then (if previous_is_cased then to_lower c else c) # title_from True cs
      else c # title_from False cs)"

definition title :: "string \<Rightarrow> string" where
  "title s = title_from False s"

section \<open>The request hook: \<^verbatim>\<open>user_prompt_submit.py\<close>\<close>

text \<open>
  \<^verbatim>\<open>UserPromptSubmitValidator.validate_request\<close>. The loop over the required fields
  returns at the first field that the request lacks; \<open>find\<close> is that loop. The
  timestamp of the instance is the parameter \<open>ts\<close>.
\<close>

definition required_fields :: "string list" where
  "required_fields = [''type'', ''action'', ''description'']"

definition valid_types :: "string list" where
  "valid_types = [''feature'', ''bugfix'', ''refactor'', ''documentation'']"

definition UserPromptSubmitValidator_validate_request :: "string \<Rightarrow> pydict \<Rightarrow> error + json" where
  "UserPromptSubmitValidator_validate_request ts request =
     (case find (\<lambda>field. \<not> has_key request field) required_fields of
        Some field \<Rightarrow>
          Inr (JObj [(''valid'', JBool False),
                     (''error'', JStr (''Missing required field: '' @ field)),
                     (''timestamp'', JStr ts)])
      | None \<Rightarrow>
          bindE (dict_item request ''type'') (\<lambda>ty.
            if \<not> in_str_list ty valid_types then
              Inr (JObj [(''valid'', JBool False),
                         (''error'', JStr (''Invalid request type. Must be one of: ''
                                            @ join '', '' valid_types)),
                         (''timestamp'', JStr ts)])
            else Inr (JObj [(''valid'', JBool True), (''timestamp'', JStr ts)])))"

section \<open>The orchestrator: \<^verbatim>\<open>orchestrator.py\<close>\<close>

datatype WorkflowPhase =
  VALIDATE_REQUEST | VALIDATE_PRD | PLAN | IMPLEMENT | TEST | REVIEW | DEPLOY

fun phase_value :: "WorkflowPhase \<Rightarrow> string" where
  "phase_value VALIDATE_REQUEST = ''validate_request''"
| "phase_value VALIDATE_PRD = ''validate_prd''"
| "phase_value PLAN = ''plan''"
| "phase_value IMPLEMENT = ''implement''"
| "phase_value TEST = ''test''"
| "phase_value REVIEW = ''review''"
| "phase_value DEPLOY = ''deploy''"

text \<open>\<^verbatim>\<open>Orchestrator._validate_request\<close>: the presence loop only, no check of the type.\<close>

definition Orchestrator_validate_request :: "pydict \<Rightarrow> json" where
  "Orchestrator_validate_request request =
     (case find (\<lambda>field. \<not> has_key request field) [''type'', ''action'', ''description''] of
        Some field \<Rightarrow>
          JObj [(''valid'', JBool False), (''error'', JStr (''Missing field: '' @ field))]
      | None \<Rightarrow>
          JObj [(''valid'', JBool True), (''request_structure'', JStr ''valid'')])"

text \<open>\<^verbatim>\<open>Orchestrator._validate_prd\<close>.\<close>

definition Orchestrator_validate_prd :: "json \<Rightarrow> json" where
  "Orchestrator_validate_prd prd =
     (if \<not> truthy prd then JObj [(''valid'', JBool False), (''error'', JStr ''PRD not provided'')]
      else JObj [(''valid'', JBool True), (''prd_structure'', JStr ''valid'')])"

text \<open>
  The strings of the plan hold two characters outside ASCII, written here as their
  UTF-8 bytes: the arrow U+2192 and the check mark U+2713.
\<close>

definition arrow :: string where
  "arrow = [CHR 0xE2, CHR 0x86, CHR 0x92]"

definition check_mark :: string where
  "check_mark = [CHR 0xE2, CHR 0x9C, CHR 0x93]"

text \<open>\<^verbatim>\<open>Orchestrator._create_execution_plan\<close>: both arguments are unused.\<close>

definition Orchestrator_create_execution_plan :: "pydict \<Rightarrow> json \<Rightarrow> json" where
  "Orchestrator_create_execution_plan request prd =
     JObj [(''features_to_build'', JInt 4),
           (''estimated_duration_hours'', JInt 160),
           (''parallel_tracks'', JInt 3),
           (''dependencies'', JArr [
              JStr (''Database schema '' @ arrow @ '' Backend API '' @ arrow @ '' Frontend UI''),
              JStr (''Auth service '' @ arrow @ '' Protected pages '' @ arrow @ '' Tests''),
              JStr (''Blog feature '' @ arrow @ '' SEO optimization '' @ arrow @ '' Content'')]),
           (''critical_path'',
              JStr (''Database Design '' @ arrow @ '' Auth Service '' @ arrow @ '' Core APIs'')),
           (''bottlenecks'', JArr [])]"

text \<open>One entry of an agent's task list.\<close>

definition task :: "string \<Rightarrow> string \<Rightarrow> int \<Rightarrow> string list \<Rightarrow> json" where
  "task name priority hours deps =
     JObj [(''task'', JStr name), (''priority'', JStr priority),
           (''estimated_hours'', JInt hours), (''dependencies'', JArr (map JStr deps))]"

text \<open>\<^verbatim>\<open>Orchestrator._assign_work\<close>: the plan is unused.\<close>

definition Orchestrator_assign_work :: "json \<Rightarrow> json" where
  "Orchestrator_assign_work plan =
     JObj [(''frontend_engineer'', JArr [
              task ''Homepage (P0)'' ''high'' 16 [],
              task ''Authentication UI (P0)'' ''high'' 12 [''Backend: Auth API''],
              task ''Dashboard (P1)'' ''medium'' 20 [''Backend: Analytics API'']]),
           (''backend_engineer'', JArr [
              task ''Database Schema'' ''critical'' 8 [],
              task ''Authentication API (P0)'' ''high'' 12 [''Database Schema''],
              task ''Blog API (P2)'' ''medium'' 16 [''Database Schema'']]),
           (''test_engineer'', JArr [
              task ''Unit tests'' ''high'' 24 [''Implementation''],
              task ''Integration tests'' ''high'' 16 [''Implementation''],
              task ''E2E tests'' ''medium'' 20 [''Integration tests'']]),
           (''infrastructure_guardian'', JArr [
              task ''Terraform setup'' ''high'' 20 [],
              task ''CI/CD pipelines'' ''high'' 16 [''Terraform setup'']]),
           (''security_reviewer'', JArr [
              task ''Code audit'' ''high'' 12 [''Implementation''],
              task ''Dependency scanning'' ''high'' 4 []])]"

text \<open>\<^verbatim>\<open>Orchestrator._create_test_plan\<close>: the plan is unused.\<close>

definition Orchestrator_create_test_plan :: "json \<Rightarrow> json" where
  "Orchestrator_create_test_plan plan =
     JObj [(''unit_tests'',
              JObj [(''target_coverage'', JInt 80), (''estimated_tests'', JInt 150)]),
           (''integration_tests'',
              JObj [(''target_coverage'', JInt 70), (''estimated_tests'', JInt 40)]),
           (''e2e_tests'',
              JObj [(''critical_flows'', JInt 12), (''estimated_tests'', JInt 25)]),
           (''performance_tests'',
              JObj [(''lighthouse_target'', JInt 90), (''bundle_size_limit_kb'', JInt 250)]),
           (''accessibility_tests'',
              JObj [(''standard'', JStr ''WCAG 2.1 AA''), (''automated_tests'', JInt 50)])]"

text \<open>\<^verbatim>\<open>Orchestrator._get_review_checklist\<close>.\<close>

definition Orchestrator_get_review_checklist :: json where
  "Orchestrator_get_review_checklist =
     JArr (map (\<lambda>item. JStr (check_mark @ item)) [
       '' Code review - All PRs reviewed and approved'',
       '' Test coverage - Minimum 80% coverage met'',
       '' Performance - Lighthouse > 90'',
       '' Security - No vulnerabilities detected'',
       '' Accessibility - WCAG 2.1 AA compliant'',
       '' SEO - All meta tags and structured data present'',
       '' Documentation - API and code documented'',
       '' Breaking changes - None or properly documented'',
       '' Database migrations - All migrations tested'',
       '' Deployment plan - Ready for production''])"

text \<open>\<^verbatim>\<open>Orchestrator._create_deployment_strategy\<close>: the plan is unused.\<close>

definition Orchestrator_create_deployment_strategy :: "json \<Rightarrow> json" where
  "Orchestrator_create_deployment_strategy plan =
     JObj [(''strategy'', JStr ''blue_green''),
           (''stages'', JArr [
              JObj [(''stage'', JStr ''staging''),
                    (''health_checks'', JArr [JStr ''API endpoints'', JStr ''Database connectivity'']),
                    (''smoke_tests'', JInt 15),
                    (''validation_time_minutes'', JInt 30)],
              JObj [(''stage'', JStr ''production''),
                    (''gradual_rollout'',
                       JObj [(''percentage'', JArr [JInt 10, JInt 50, JInt 100]),
                             (''interval_minutes'', JInt 30)]),
                    (''rollback_plan'', JStr ''Automatic on health check failure''),
                    (''monitoring'',
                       JArr [JStr ''Error rates'', JStr ''Performance metrics'', JStr ''User impact''])]]),
           (''estimated_deployment_time_minutes'', JInt 60),
           (''downtime_required'', JInt 0)]"

text \<open>One entry of \<^verbatim>\<open>execution_plan["phases"]\<close>.\<close>

definition phase_entry :: "WorkflowPhase \<Rightarrow> string \<Rightarrow> string \<Rightarrow> json \<Rightarrow> json" where
  "phase_entry phase status key payload =
     JObj [(''name'', JStr (phase_value phase)), (''status'', JStr status), (key, payload)]"

text \<open>
  \<^verbatim>\<open>Orchestrator.orchestrate\<close>, with the state written out: the function yields the
  list \<^verbatim>\<open>execution_plan["phases"]\<close> as it stands when the method returns, and the
  value returned. \<open>rid\<close> is what \<^verbatim>\<open>_generate_id\<close> returned, \<open>ts\<close> the timestamp of the
  instance.
\<close>

definition Orchestrator_orchestrate_run ::
    "string \<Rightarrow> string \<Rightarrow> pydict \<Rightarrow> error + (json list \<times> json)" where
  "Orchestrator_orchestrate_run rid ts request =
     (let phases = [];
          request_validation = Orchestrator_validate_request request in
      bindE (getitem request_validation ''valid'') (\<lambda>ok.
      if \<not> truthy ok then
        Inr (phases, JObj [(''valid'', JBool False), (''error'', request_validation),
                           (''timestamp'', JStr ts)])
      else
        let phases = phases @ [phase_entry VALIDATE_REQUEST ''completed'' ''result'' request_validation];
            prd_validation = Orchestrator_validate_prd (dict_get request ''prd'') in
        bindE (getitem prd_validation ''valid'') (\<lambda>ok.
        if \<not> truthy ok then
          Inr (phases, JObj [(''valid'', JBool False), (''error'', prd_validation),
                             (''timestamp'', JStr ts)])
        else
          let phases = phases @ [phase_entry VALIDATE_PRD ''completed'' ''result'' prd_validation];
              plan = Orchestrator_create_execution_plan request prd_validation;
              phases = phases @ [phase_entry PLAN ''ready'' ''plan'' plan];
              assignments = Orchestrator_assign_work plan;
              phases = phases @ [phase_entry IMPLEMENT ''pending'' ''assignments'' assignments];
              test_plan = Orchestrator_create_test_plan plan;
              phases = phases @ [phase_entry TEST ''pending'' ''plan'' test_plan];
              phases = phases @ [phase_entry REVIEW ''pending'' ''checklist''
                                   Orchestrator_get_review_checklist];
              deployment_strategy = Orchestrator_create_deployment_strategy plan;
              phases = phases @ [phase_entry DEPLOY ''pending'' ''strategy'' deployment_strategy]
          in Inr (phases,
                  JObj [(''valid'', JBool True),
                        (''execution_plan'',
                           JObj [(''request_id'', JStr rid), (''timestamp'', JStr ts),
                                 (''phases'', JArr phases)]),
                        (''agent_assignments'', assignments),
                        (''ready_for_implementation'', JBool True),
                        (''timestamp'', JStr ts)]))))"

definition Orchestrator_orchestrate :: "string \<Rightarrow> string \<Rightarrow> pydict \<Rightarrow> error + json" where
  "Orchestrator_orchestrate rid ts request =
     bindE (Orchestrator_orchestrate_run rid ts request) (\<lambda>(phases, result). Inr result)"

section \<open>The PRD validator: \<^verbatim>\<open>prd_validator.py\<close>\<close>

definition required_sections :: "string list" where
  "required_sections =
     [''Executive Summary'', ''Problem Statement'', ''Target Users/Personas'', ''Core Features'',
      ''Success Metrics'', ''Constraints'', ''Timeline'', ''Non-Goals'']"

definition required_feature_fields :: "string list" where
  "required_feature_fields = [''name'', ''priority'', ''description'', ''acceptance_criteria'']"

definition required_metric_categories :: "string list" where
  "required_metric_categories =
     [''development'', ''quality'', ''performance'', ''security'', ''accessibility'']"

definition required_constraint_categories :: "string list" where
  "required_constraint_categories = [''technical'', ''performance'', ''security'', ''compliance'']"

definition section_issue :: "string \<Rightarrow> string" where
  "section_issue section = ''Missing section: '' @ section"

definition feature_issue :: "nat \<Rightarrow> string \<Rightarrow> string" where
  "feature_issue idx field =
     ''Feature '' @ show_nat idx @ '': missing field '' @ [CHR 0x27] @ field @ [CHR 0x27]"

text \<open>The first loop of \<^verbatim>\<open>PRDValidator.validate_prd\<close>: the required sections.\<close>

definition missing_section_issues :: "pydict \<Rightarrow> string list" where
  "missing_section_issues prd_content =
     concat (map (\<lambda>section. if \<not> has_key prd_content section then [section_issue section] else [])
                 required_sections)"

text \<open>\<^verbatim>\<open>PRDValidator._validate_features\<close>.\<close>

definition PRDValidator_validate_features :: "json \<Rightarrow> error + string list" where
  "PRDValidator_validate_features features =
     (if \<not> truthy features then Inr [''No features defined'']
      else bindE (py_len features) (\<lambda>n.
        if n = 0 then Inr [''No features defined'']
        else bindE (py_iter features) (\<lambda>fs.
          collectE (\<lambda>(idx, feature).
              collectE (\<lambda>field.
                  bindE (py_contains feature field) (\<lambda>present.
                    Inr (if \<not> present then [feature_issue idx field] else [])))
                required_feature_fields)
            (enumerate 0 fs))))"

text \<open>\<^verbatim>\<open>PRDValidator._validate_metrics\<close> and \<^verbatim>\<open>PRDValidator._validate_constraints\<close>.\<close>

definition PRDValidator_validate_metrics :: "json \<Rightarrow> error + string list" where
  "PRDValidator_validate_metrics metrics =
     collectE (\<lambda>category.
         bindE (py_contains metrics category) (\<lambda>present.
           Inr (if \<not> present then [''Missing metric category: '' @ category] else [])))
       required_metric_categories"

definition PRDValidator_validate_constraints :: "json \<Rightarrow> error + string list" where
  "PRDValidator_validate_constraints constraints =
     collectE (\<lambda>category.
         bindE (py_contains constraints category) (\<lambda>present.
           Inr (if \<not> present then [''Missing constraint category: '' @ category] else [])))
       required_constraint_categories"

text \<open>\<^verbatim>\<open>PRDValidator.validate_prd\<close>.\<close>

definition PRDValidator_validate_prd :: "string \<Rightarrow> pydict \<Rightarrow> error + json" where
  "PRDValidator_validate_prd ts prd_content =
     (let issues = missing_section_issues prd_content in
      bindE (extend_if_present prd_content ''features'' PRDValidator_validate_features issues)
        (\<lambda>issues.
      bindE (extend_if_present prd_content ''success_metrics'' PRDValidator_validate_metrics issues)
        (\<lambda>issues.
      bindE (extend_if_present prd_content ''constraints'' PRDValidator_validate_constraints issues)
        (\<lambda>issues.
      Inr (JObj [(''valid'', JBool (length issues = 0)),
                 (''issues'', JArr (map JStr issues)),
                 (''timestamp'', JStr ts)])))))"

section \<open>The performance guard: \<^verbatim>\<open>web_performance_guard.py\<close>\<close>

text \<open>The budget tables of \<^verbatim>\<open>PerformanceGuard.__init__\<close>.\<close>

definition lighthouse_min_score :: int where
  "lighthouse_min_score = 90"

definition lighthouse_categories :: "string list" where
  "lighthouse_categories = [''performance'', ''accessibility'', ''best-practices'', ''seo'']"

definition core_web_vitals_budgets :: pydict where
  "core_web_vitals_budgets =
     [(''fcp'', JInt 1500), (''lcp'', JInt 2500), (''tti'', JInt 3500),
      (''cls'', JFloat (fl (1 / 10)))]"

definition bundle_sizes_budgets :: "(string \<times> int) list" where
  "bundle_sizes_budgets = [(''javascript'', 300), (''css'', 75), (''images'', 1000), (''fonts'', 100)]"

definition network_budgets :: "(string \<times> int) list" where
  "network_budgets = [(''ttfb'', 200), (''3g_load_time'', 5000), (''4g_load_time'', 3000)]"

definition int_table :: "(string \<times> int) list \<Rightarrow> json" where
  "int_table t = JObj (map (\<lambda>(k, v). (k, JInt v)) t)"

definition budgets :: json where
  "budgets =
     JObj [(''lighthouse'',
              JObj [(''min_score'', JInt lighthouse_min_score),
                    (''categories'', JArr (map JStr lighthouse_categories))]),
           (''core_web_vitals'', JObj core_web_vitals_budgets),
           (''bundle_sizes'', int_table bundle_sizes_budgets),
           (''network'', int_table network_budgets)]"

text \<open>
  \<^verbatim>\<open>PerformanceGuard._check_lighthouse\<close>. The percentage is computed and not used,
  but its division can raise.
\<close>

definition check_lighthouse_entry :: "(pyfloat \<Rightarrow> string) \<Rightarrow> string \<times> json \<Rightarrow> error + json list" where
  "check_lighthouse_entry frepr entry =
     (case entry of (category, score) \<Rightarrow>
        let min_score = lighthouse_min_score in
        bindE (num_of score) (\<lambda>n.
          if num_less n (NInt min_score) then
            bindE (num_truediv_int n min_score) (\<lambda>q.
            bindE (float_mul_int q 100) (\<lambda>percentage.
              Inr [JObj [(''type'', JStr ''critical''),
                         (''metric'', JStr (''Lighthouse '' @ category)),
                         (''value'', score),
                         (''budget'', JInt min_score),
                         (''message'',
                            JStr (''Lighthouse '' @ category @ '' score ('' @ num_format frepr n
                                  @ '') is below minimum ('' @ show_int min_score @ '')''))]]))
          else Inr []))"

definition PerformanceGuard_check_lighthouse :: "(pyfloat \<Rightarrow> string) \<Rightarrow> json \<Rightarrow> error + json list" where
  "PerformanceGuard_check_lighthouse frepr scores =
     bindE (py_items scores) (collectE (check_lighthouse_entry frepr))"

text \<open>\<^verbatim>\<open>PerformanceGuard._check_core_web_vitals\<close>: the loop runs over the name table.\<close>

definition metric_names :: "(string \<times> string) list" where
  "metric_names =
     [(''fcp'', ''First Contentful Paint''), (''lcp'', ''Largest Contentful Paint''),
      (''tti'', ''Time to Interactive''), (''cls'', ''Cumulative Layout Shift'')]"

definition check_core_web_vitals_entry ::
    "(pyfloat \<Rightarrow> string) \<Rightarrow> json \<Rightarrow> string \<times> string \<Rightarrow> error + json list" where
  "check_core_web_vitals_entry frepr cwv entry =
     (case entry of (metric_key, metric_name) \<Rightarrow>
        bindE (py_contains cwv metric_key) (\<lambda>present.
          if present then
            bindE (getitem cwv metric_key) (\<lambda>value.
            bindE (dict_item core_web_vitals_budgets metric_key) (\<lambda>budget.
            bindE (num_of value) (\<lambda>v.
            bindE (num_of budget) (\<lambda>b.
              if num_less b v then
                Inr [JObj [(''type'', JStr ''critical''),
                           (''metric'', JStr metric_name),
                           (''value'', value),
                           (''budget'', budget),
                           (''unit'', JStr (if metric_key \<noteq> ''cls'' then ''ms'' else [])),
                           (''message'',
                              JStr (metric_name @ '' ('' @ num_format frepr v @ ''ms) exceeds budget (''
                                    @ num_format frepr b @ ''ms)''))]]
              else Inr []))))
          else Inr []))"

definition PerformanceGuard_check_core_web_vitals ::
    "(pyfloat \<Rightarrow> string) \<Rightarrow> json \<Rightarrow> error + json list" where
  "PerformanceGuard_check_core_web_vitals frepr cwv =
     collectE (check_core_web_vitals_entry frepr cwv) metric_names"

text \<open>
  \<^verbatim>\<open>PerformanceGuard._check_bundle_sizes\<close>. The percentage is computed for every entry
  of the budget table, before the size is compared with the budget.
\<close>

definition check_bundle_entry :: "(pyfloat \<Rightarrow> string) \<Rightarrow> string \<times> json \<Rightarrow> error + json list" where
  "check_bundle_entry frepr entry =
     (case entry of (asset_type, size_kb) \<Rightarrow>
        case map_of bundle_sizes_budgets asset_type of
          None \<Rightarrow> Inr []
        | Some budget \<Rightarrow>
            bindE (num_of size_kb) (\<lambda>n.
            bindE (num_truediv_int n budget) (\<lambda>q.
            bindE (float_mul_int q 100) (\<lambda>percentage.
              if num_less (NInt budget) n then
                let level = (if float_less (FVal 110) percentage then ''critical'' else ''warning'') in
                bindE (py_round1 percentage) (\<lambda>rounded.
                  Inr [JObj [(''type'', JStr level),
                             (''metric'', JStr (title asset_type @ '' bundle'')),
                             (''value'', size_kb),
                             (''budget'', JInt budget),
                             (''unit'', JStr ''KB''),
                             (''percentage'', JFloat rounded),
                             (''message'',
                                JStr (asset_type @ '' size ('' @ num_format frepr n
                                      @ ''KB) exceeds budget ('' @ show_int budget @ ''KB)''))]])
              else Inr []))))"

definition PerformanceGuard_check_bundle_sizes :: "(pyfloat \<Rightarrow> string) \<Rightarrow> json \<Rightarrow> error + json list" where
  "PerformanceGuard_check_bundle_sizes frepr sizes =
     bindE (py_items sizes) (collectE (check_bundle_entry frepr))"

text \<open>\<^verbatim>\<open>PerformanceGuard._check_network\<close>.\<close>

definition check_network_entry :: "(pyfloat \<Rightarrow> string) \<Rightarrow> string \<times> json \<Rightarrow> error + json list" where
  "check_network_entry frepr entry =
     (case entry of (metric_key, value) \<Rightarrow>
        case map_of network_budgets metric_key of
          None \<Rightarrow> Inr []
        | Some budget \<Rightarrow>
            bindE (num_of value) (\<lambda>v.
              if num_less (NInt budget) v then
                Inr [JObj [(''type'', JStr ''warning''),
                           (''metric'', JStr metric_key),
                           (''value'', value),
                           (''budget'', JInt budget),
                           (''unit'', JStr ''ms''),
                           (''message'',
                              JStr (metric_key @ '' ('' @ num_format frepr v @ ''ms) exceeds budget (''
                                    @ show_int budget @ ''ms)''))]]
              else Inr []))"

definition PerformanceGuard_check_network :: "(pyfloat \<Rightarrow> string) \<Rightarrow> json \<Rightarrow> error + json list" where
  "PerformanceGuard_check_network frepr network =
     bindE (py_items network) (collectE (check_network_entry frepr))"

text \<open>\<^verbatim>\<open>PerformanceGuard.validate_performance\<close>.\<close>

definition PerformanceGuard_validate_performance ::
    "(pyfloat \<Rightarrow> string) \<Rightarrow> string \<Rightarrow> pydict \<Rightarrow> error + json" where
  "PerformanceGuard_validate_performance frepr ts metrics =
     (let violations = [];
          warnings = [] in
      bindE (extend_if_present metrics ''lighthouse'' (PerformanceGuard_check_lighthouse frepr) violations)
        (\<lambda>violations.
      bindE (extend_if_present metrics ''core_web_vitals''
               (PerformanceGuard_check_core_web_vitals frepr) violations)
        (\<lambda>violations.
      bindE (extend_if_present metrics ''bundle_sizes'' (PerformanceGuard_check_bundle_sizes frepr) violations)
        (\<lambda>violations.
      bindE (extend_if_present metrics ''network'' (PerformanceGuard_check_network frepr) violations)
        (\<lambda>violations.
      Inr (JObj [(''valid'', JBool (length violations = 0)),
                 (''violations'', JArr violations),
                 (''warnings'', JArr warnings),
                 (''timestamp'', JStr ts)]))))))"

text \<open>\<^verbatim>\<open>PerformanceGuard.get_budget_summary\<close> and \<^verbatim>\<open>PerformanceGuard.process\<close>.\<close>

definition PerformanceGuard_get_budget_summary :: "error + json" where
  "PerformanceGuard_get_budget_summary =
     bindE (getitem budgets ''lighthouse'') (\<lambda>lighthouse.
     bindE (getitem lighthouse ''min_score'') (\<lambda>min_score.
     bindE (getitem budgets ''core_web_vitals'') (\<lambda>core_web_vitals.
     bindE (getitem budgets ''bundle_sizes'') (\<lambda>bundle_sizes.
     bindE (getitem budgets ''network'') (\<lambda>network.
       Inr (JObj [(''lighthouse_minimum'', min_score),
                  (''core_web_vitals'', core_web_vitals),
                  (''bundle_limits'', bundle_sizes),
                  (''network_targets'', network)]))))))"

definition PerformanceGuard_process :: "(pyfloat \<Rightarrow> string) \<Rightarrow> string \<Rightarrow> pydict \<Rightarrow> error + json" where
  "PerformanceGuard_process frepr ts metrics =
     bindE (PerformanceGuard_validate_performance frepr ts metrics) (\<lambda>validation.
     bindE (getitem validation ''valid'') (\<lambda>ok.
       if truthy ok then
         bindE PerformanceGuard_get_budget_summary (\<lambda>summary.
           Inr (JObj [(''valid'', JBool True),
                      (''message'', JStr ''All performance budgets met''),
                      (''budget_summary'', summary),
                      (''timestamp'', JStr ts),
                      (''approved_for_merge'', JBool True)]))
       else
         bindE (getitem validation ''violations'') (\<lambda>violations.
         bindE (getitem validation ''warnings'') (\<lambda>warnings.
         bindE PerformanceGuard_get_budget_summary (\<lambda>summary.
           Inr (JObj [(''valid'', JBool False),
                      (''violations'', violations),
                      (''warnings'', warnings),
                      (''timestamp'', JStr ts),
                      (''action_required'', JStr ''Fix performance violations before merge''),
                      (''budget_summary'', summary)]))))))"

section \<open>Values that the statements compare with\<close>

text \<open>
  The phase list and the result of a run of \<^verbatim>\<open>Orchestrator.orchestrate\<close> that passes
  both validations, written with the plan functions at fixed arguments: they depend on
  the request identifier and on the timestamp only.
\<close>

definition plan_template_phases :: "json list" where
  "plan_template_phases =
     [phase_entry VALIDATE_REQUEST ''completed'' ''result''
        (JObj [(''valid'', JBool True), (''request_structure'', JStr ''valid'')]),
      phase_entry VALIDATE_PRD ''completed'' ''result''
        (JObj [(''valid'', JBool True), (''prd_structure'', JStr ''valid'')]),
      phase_entry PLAN ''ready'' ''plan'' (Orchestrator_create_execution_plan [] JNull),
      phase_entry IMPLEMENT ''pending'' ''assignments'' (Orchestrator_assign_work JNull),
      phase_entry TEST ''pending'' ''plan'' (Orchestrator_create_test_plan JNull),
      phase_entry REVIEW ''pending'' ''checklist'' Orchestrator_get_review_checklist,
      phase_entry DEPLOY ''pending'' ''strategy'' (Orchestrator_create_deployment_strategy JNull)]"

definition plan_template_result :: "string \<Rightarrow> string \<Rightarrow> json" where
  "plan_template_result rid ts =
     JObj [(''valid'', JBool True),
           (''execution_plan'',
              JObj [(''request_id'', JStr rid), (''timestamp'', JStr ts),
                    (''phases'', JArr plan_template_phases)]),
           (''agent_assignments'', Orchestrator_assign_work JNull),
           (''ready_for_implementation'', JBool True),
           (''timestamp'', JStr ts)]"

text \<open>The result of a run that stops at the PRD validation.\<close>

definition prd_missing_result :: "string \<Rightarrow> json" where
  "prd_missing_result ts =
     JObj [(''valid'', JBool False),
           (''error'', JObj [(''valid'', JBool False), (''error'', JStr ''PRD not provided'')]),
           (''timestamp'', JStr ts)]"

text \<open>\<^verbatim>\<open>r[k]\<close> for the dictionary \<open>r\<close> that a call returned.\<close>

definition result_field :: "error + json \<Rightarrow> string \<Rightarrow> error + json" where
  "result_field r k = bindE r (\<lambda>res. getitem res k)"

text \<open>A request with the three required keys, a type outside the valid types, and a PRD.\<close>

definition bogus_request :: pydict where
  "bogus_request =
     [(''type'', JStr ''bogus''), (''action'', JStr ''add''), (''description'', JStr ''x''),
      (''prd'', JObj [(''Executive Summary'', JStr ''text'')])]"

text \<open>The request of the spec's example: the three required keys and no PRD.\<close>

definition feature_request :: pydict where
  "feature_request =
     [(''type'', JStr ''feature''), (''action'', JStr ''add''), (''description'', JStr ''x'')]"

text \<open>A second request that passes both validations of the orchestrator.\<close>

definition documented_request :: pydict where
  "documented_request =
     [(''description'', JStr ''Fix login''), (''action'', JStr ''fix''), (''type'', JStr ''bugfix''),
      (''prd'', JStr ''see wiki''), (''priority'', JInt 1)]"

text \<open>A request that lacks the fields action and description.\<close>

definition type_only_request :: pydict where
  "type_only_request = [(''type'', JStr ''feature'')]"

text \<open>A PRD document with the eight required sections and no other key.\<close>

definition sections_only_prd :: pydict where
  "sections_only_prd =
     [(''Executive Summary'', JStr ''a''), (''Problem Statement'', JStr ''b''),
      (''Target Users/Personas'', JArr []), (''Core Features'', JNull),
      (''Success Metrics'', JInt 0), (''Constraints'', JObj []),
      (''Timeline'', JStr ''Q3''), (''Non-Goals'', JBool False)]"

text \<open>A PRD document with two of the required sections and an empty feature list.\<close>

definition partial_prd :: pydict where
  "partial_prd =
     [(''Timeline'', JStr ''Q3''), (''Executive Summary'', JStr ''a''), (''features'', JArr [])]"

text \<open>
  The issues of a feature list whose entries are dictionaries, numbered from \<open>n\<close> on:
  one issue for each required field that an entry lacks.
\<close>

definition dict_feature_issues :: "nat \<Rightarrow> pydict list \<Rightarrow> string list" where
  "dict_feature_issues n ds =
     concat (map (\<lambda>(idx, d). map (feature_issue idx)
                                  (filter (\<lambda>f. \<not> has_key d f) required_feature_fields))
                 (enumerate n ds))"

text \<open>Two feature entries, each lacking two of the four required fields.\<close>

definition two_features :: "pydict list" where
  "two_features =
     [[(''name'', JStr ''Login''), (''priority'', JStr ''P0'')],
      [(''description'', JStr ''Export''), (''acceptance_criteria'', JArr [])]]"

text \<open>Metrics with one network timing over its budget.\<close>

definition slow_network_metrics :: pydict where
  "slow_network_metrics = [(''network'', JObj [(''ttfb'', JInt 250)])]"

text \<open>The metrics of the spec's example: a JavaScript bundle of 330 KB.\<close>

definition javascript_330_metrics :: pydict where
  "javascript_330_metrics = [(''bundle_sizes'', JObj [(''javascript'', JInt 330)])]"

section \<open>Basic facts\<close>

lemma bindE_Inr [simp]: "bindE (Inr x) f = f x"
  by (simp add: bindE_def)

lemma bindE_Inl [simp]: "bindE (Inl e) f = Inl e"
  by (simp add: bindE_def)

lemma bindE_eq_Inr: "bindE m f = Inr y \<longleftrightarrow> (\<exists>x. m = Inr x \<and> f x = Inr y)"
  by (cases m) simp_all

lemma dict_item_has_key: "has_key d k \<Longrightarrow> \<exists>v. dict_item d k = Inr v \<and> map_of d k = Some v"
  unfolding has_key_def dict_item_def
  by (cases "map_of d k") (auto simp: map_of_eq_None_iff)

lemma dict_item_dict_get: "has_key d k \<Longrightarrow> dict_item d k = Inr (dict_get d k)"
  using dict_item_has_key [of d k] by (auto simp: dict_get_def)

section \<open>The orchestrator and the request hook\<close>

lemma orch_request_ok:
  assumes "has_key request ''type''" "has_key request ''action''" "has_key request ''description''"
  shows "Orchestrator_validate_request request =
           JObj [(''valid'', JBool True), (''request_structure'', JStr ''valid'')]"
  using assms by (simp add: Orchestrator_validate_request_def)

lemma orch_request_valid_iff:
  "getitem (Orchestrator_validate_request request) ''valid'' = Inr (JBool True) \<longleftrightarrow>
     has_key request ''type'' \<and> has_key request ''action'' \<and> has_key request ''description''"
  by (simp add: Orchestrator_validate_request_def dict_item_def)

lemma orch_prd_valid_iff:
  "getitem (Orchestrator_validate_prd prd) ''valid'' = Inr (JBool True) \<longleftrightarrow> truthy prd"
  by (simp add: Orchestrator_validate_prd_def dict_item_def)

lemma orchestrate_run_success:
  assumes "has_key request ''type''" "has_key request ''action''" "has_key request ''description''"
    and "truthy (dict_get request ''prd'')"
  shows "Orchestrator_orchestrate_run rid ts request =
           Inr (plan_template_phases, plan_template_result rid ts)"
  using assms
  by (simp add: Orchestrator_orchestrate_run_def orch_request_ok Orchestrator_validate_prd_def
      dict_item_def plan_template_phases_def plan_template_result_def
      Orchestrator_create_execution_plan_def Orchestrator_assign_work_def
      Orchestrator_create_test_plan_def Orchestrator_create_deployment_strategy_def Let_def)

lemma orchestrate_run_no_prd:
  assumes "has_key request ''type''" "has_key request ''action''" "has_key request ''description''"
    and "\<not> truthy (dict_get request ''prd'')"
  shows "Orchestrator_orchestrate_run rid ts request =
           Inr ([phase_entry VALIDATE_REQUEST ''completed'' ''result''
                   (JObj [(''valid'', JBool True), (''request_structure'', JStr ''valid'')])],
                prd_missing_result ts)"
  using assms
  by (simp add: Orchestrator_orchestrate_run_def orch_request_ok Orchestrator_validate_prd_def
      dict_item_def prd_missing_result_def)

lemma orchestrate_success:
  assumes "has_key request ''type''" "has_key request ''action''" "has_key request ''description''"
    and "truthy (dict_get request ''prd'')"
  shows "Orchestrator_orchestrate rid ts request = Inr (plan_template_result rid ts)"
  by (simp add: Orchestrator_orchestrate_def orchestrate_run_success [OF assms])

lemma orchestrate_no_prd:
  assumes "has_key request ''type''" "has_key request ''action''" "has_key request ''description''"
    and "\<not> truthy (dict_get request ''prd'')"
  shows "Orchestrator_orchestrate rid ts request = Inr (prd_missing_result ts)"
  by (simp add: Orchestrator_orchestrate_def orchestrate_run_no_prd [OF assms])

lemma join_valid_types: "join '', '' valid_types = ''feature, bugfix, refactor, documentation''"
  by (simp add: valid_types_def)

lemma bogus_request_facts:
  "has_key bogus_request ''type''" "has_key bogus_request ''action''"
  "has_key bogus_request ''description''"
  "\<not> in_str_list (dict_get bogus_request ''type'') valid_types"
  "truthy (dict_get bogus_request ''prd'')"
  by (simp_all add: bogus_request_def has_key_def dict_get_def in_str_list_def valid_types_def)

text \<open>
  C1, as stated, fails: the request \<open>bogus_request\<close> has the three required keys and the
  type \<^verbatim>\<open>"bogus"\<close>, and \<^verbatim>\<open>Orchestrator.orchestrate\<close> returns \<^verbatim>\<open>valid: true\<close> with all
  seven phases, the plan among them.
\<close>

theorem C1_orchestrate_accepts_unknown_type:
  "has_key bogus_request ''type'' \<and> has_key bogus_request ''action''
   \<and> has_key bogus_request ''description''
   \<and> \<not> in_str_list (dict_get bogus_request ''type'') valid_types
   \<and> result_field (Orchestrator_orchestrate ''1a2b3c4d'' ''2026-01-01T00:00:00'' bogus_request)
        ''valid'' = Inr (JBool True)
   \<and> result_field (result_field
         (Orchestrator_orchestrate ''1a2b3c4d'' ''2026-01-01T00:00:00'' bogus_request)
         ''execution_plan'') ''phases'' = Inr (JArr plan_template_phases)"
  using bogus_request_facts
  by (simp add: orchestrate_success result_field_def plan_template_result_def dict_item_def)

text \<open>
  C1, amended: for every request that contains the keys type, action and description
  and whose type value is not one of feature, bugfix, refactor, documentation, the
  request hook (\<^verbatim>\<open>UserPromptSubmitValidator.validate_request\<close>) returns \<^verbatim>\<open>valid: false\<close>
  with the invalid-type error. \<^verbatim>\<open>Orchestrator.orchestrate\<close> does not look at the type
  value: it stops before any plan is built only where the \<^verbatim>\<open>prd\<close> value is absent or
  false, and otherwise returns \<^verbatim>\<open>valid: true\<close> with the full plan.
\<close>

theorem C1_type_checked_by_request_hook_only:
  assumes "has_key request ''type''" "has_key request ''action''" "has_key request ''description''"
    and "\<not> in_str_list (dict_get request ''type'') valid_types"
  shows "UserPromptSubmitValidator_validate_request ts request =
           Inr (JObj [(''valid'', JBool False),
                      (''error'', JStr ''Invalid request type. Must be one of: feature, bugfix, refactor, documentation''),
                      (''timestamp'', JStr ts)])
         \<and> Orchestrator_orchestrate rid ts request =
             (if truthy (dict_get request ''prd'') then Inr (plan_template_result rid ts)
              else Inr (prd_missing_result ts))"
proof -
  have "find (\<lambda>field. \<not> has_key request field) required_fields = None"
    using assms(1-3) by (simp add: required_fields_def)
  then have "UserPromptSubmitValidator_validate_request ts request =
           Inr (JObj [(''valid'', JBool False),
                      (''error'', JStr ''Invalid request type. Must be one of: feature, bugfix, refactor, documentation''),
                      (''timestamp'', JStr ts)])"
    using assms(4)
    by (simp add: UserPromptSubmitValidator_validate_request_def dict_item_dict_get [OF assms(1)]
        join_valid_types)
  then show ?thesis
    using orchestrate_success [OF assms(1-3)] orchestrate_no_prd [OF assms(1-3)] by simp
qed

text \<open>The amended C1 at \<open>bogus_request\<close>, whose PRD is present.\<close>

theorem C1_type_checked_by_request_hook_only_witness:
  "has_key bogus_request ''type'' \<and> has_key bogus_request ''action''
   \<and> has_key bogus_request ''description''
   \<and> \<not> in_str_list (dict_get bogus_request ''type'') valid_types
   \<and> UserPromptSubmitValidator_validate_request ''t'' bogus_request =
           Inr (JObj [(''valid'', JBool False),
                      (''error'', JStr ''Invalid request type. Must be one of: feature, bugfix, refactor, documentation''),
                      (''timestamp'', JStr ''t'')])
   \<and> Orchestrator_orchestrate ''1a2b3c4d'' ''t'' bogus_request
       = Inr (plan_template_result ''1a2b3c4d'' ''t'')"
  using C1_type_checked_by_request_hook_only [OF bogus_request_facts(1-4), of "''t''" "''1a2b3c4d''"]
    bogus_request_facts
  by simp

text \<open>
  C6: for every request that contains the keys type, action and description (the
  orchestrator accepts any type) and whose \<^verbatim>\<open>prd\<close> key is absent or null,
  \<^verbatim>\<open>Orchestrator.orchestrate\<close> returns \<^verbatim>\<open>valid: false\<close> with the error
  \<^verbatim>\<open>PRD not provided\<close>, and the phase list holds the completed \<^verbatim>\<open>validate_request\<close>
  entry and nothing else when the method returns.
\<close>

theorem C6_missing_prd_stops_after_validate_request:
  assumes "has_key request ''type''" "has_key request ''action''" "has_key request ''description''"
    and "map_of request ''prd'' = None \<or> map_of request ''prd'' = Some JNull"
  shows "Orchestrator_orchestrate rid ts request =
           Inr (JObj [(''valid'', JBool False),
                      (''error'', JObj [(''valid'', JBool False), (''error'', JStr ''PRD not provided'')]),
                      (''timestamp'', JStr ts)])
         \<and> Orchestrator_orchestrate_run rid ts request =
             Inr ([JObj [(''name'', JStr ''validate_request''), (''status'', JStr ''completed''),
                         (''result'', JObj [(''valid'', JBool True),
                                            (''request_structure'', JStr ''valid'')])]],
                  JObj [(''valid'', JBool False),
                        (''error'', JObj [(''valid'', JBool False), (''error'', JStr ''PRD not provided'')]),
                        (''timestamp'', JStr ts)])"
proof -
  have "\<not> truthy (dict_get request ''prd'')"
    using assms(4) by (auto simp: dict_get_def)
  then show ?thesis
    using orchestrate_no_prd [OF assms(1-3)] orchestrate_run_no_prd [OF assms(1-3)]
    by (simp add: prd_missing_result_def phase_entry_def)
qed

text \<open>C6 at the request \<open>feature_request\<close>, which has no \<^verbatim>\<open>prd\<close> key.\<close>

theorem C6_missing_prd_stops_after_validate_request_witness:
  "has_key feature_request ''type'' \<and> has_key feature_request ''action''
   \<and> has_key feature_request ''description'' \<and> map_of feature_request ''prd'' = None
   \<and> Orchestrator_orchestrate ''1a2b3c4d'' ''t'' feature_request =
           Inr (JObj [(''valid'', JBool False),
                      (''error'', JObj [(''valid'', JBool False), (''error'', JStr ''PRD not provided'')]),
                      (''timestamp'', JStr ''t'')])
   \<and> Orchestrator_orchestrate_run ''1a2b3c4d'' ''t'' feature_request =
             Inr ([JObj [(''name'', JStr ''validate_request''), (''status'', JStr ''completed''),
                         (''result'', JObj [(''valid'', JBool True),
                                            (''request_structure'', JStr ''valid'')])]],
                  JObj [(''valid'', JBool False),
                        (''error'', JObj [(''valid'', JBool False), (''error'', JStr ''PRD not provided'')]),
                        (''timestamp'', JStr ''t'')])"
proof -
  have h: "has_key feature_request ''type''" "has_key feature_request ''action''"
    "has_key feature_request ''description''"
    "map_of feature_request ''prd'' = None \<or> map_of feature_request ''prd'' = Some JNull"
    by (simp_all add: feature_request_def has_key_def)
  have n: "map_of feature_request ''prd'' = None"
    by (simp add: feature_request_def)
  show ?thesis
    using C6_missing_prd_stops_after_validate_request [OF h, of "''1a2b3c4d''" "''t''"] h(1-3) n
    by simp
qed

text \<open>
  C9: for any two requests that both pass the request validation and the PRD validation
  of the orchestrator, \<^verbatim>\<open>Orchestrator.orchestrate\<close> returns the same plan template, in
  which only the request identifier and the timestamp of the run occur; the execution
  plan, the task assignments, the test plan and the deployment strategy do not depend
  on their arguments, and the review checklist has none.
\<close>

theorem C9_plan_independent_of_input:
  assumes "getitem (Orchestrator_validate_request request1) ''valid'' = Inr (JBool True)"
    and "getitem (Orchestrator_validate_prd (dict_get request1 ''prd'')) ''valid'' = Inr (JBool True)"
    and "getitem (Orchestrator_validate_request request2) ''valid'' = Inr (JBool True)"
    and "getitem (Orchestrator_validate_prd (dict_get request2 ''prd'')) ''valid'' = Inr (JBool True)"
  shows "Orchestrator_orchestrate rid1 ts1 request1 = Inr (plan_template_result rid1 ts1)
       \<and> Orchestrator_orchestrate rid2 ts2 request2 = Inr (plan_template_result rid2 ts2)
       \<and> Orchestrator_create_execution_plan request1 prd1 = Orchestrator_create_execution_plan request2 prd2
       \<and> Orchestrator_assign_work plan1 = Orchestrator_assign_work plan2
       \<and> Orchestrator_create_test_plan plan1 = Orchestrator_create_test_plan plan2
       \<and> Orchestrator_create_deployment_strategy plan1 = Orchestrator_create_deployment_strategy plan2"
proof -
  have "Orchestrator_orchestrate rid1 ts1 request1 = Inr (plan_template_result rid1 ts1)"
    using assms(1,2) by (simp add: orch_request_valid_iff orch_prd_valid_iff orchestrate_success)
  moreover have "Orchestrator_orchestrate rid2 ts2 request2 = Inr (plan_template_result rid2 ts2)"
    using assms(3,4) by (simp add: orch_request_valid_iff orch_prd_valid_iff orchestrate_success)
  ultimately show ?thesis
    by (simp add: Orchestrator_create_execution_plan_def Orchestrator_assign_work_def
        Orchestrator_create_test_plan_def Orchestrator_create_deployment_strategy_def)
qed

text \<open>C9 at two different requests, run with different identifiers and timestamps.\<close>

theorem C9_plan_independent_of_input_witness:
  "getitem (Orchestrator_validate_request bogus_request) ''valid'' = Inr (JBool True)
   \<and> getitem (Orchestrator_validate_prd (dict_get bogus_request ''prd'')) ''valid'' = Inr (JBool True)
   \<and> getitem (Orchestrator_validate_request documented_request) ''valid'' = Inr (JBool True)
   \<and> getitem (Orchestrator_validate_prd (dict_get documented_request ''prd'')) ''valid''
       = Inr (JBool True)
   \<and> bogus_request \<noteq> documented_request
   \<and> Orchestrator_orchestrate ''1a2b3c4d'' ''t1'' bogus_request
       = Inr (plan_template_result ''1a2b3c4d'' ''t1'')
   \<and> Orchestrator_orchestrate ''99999999'' ''t2'' documented_request
       = Inr (plan_template_result ''99999999'' ''t2'')"
proof -
  have h: "getitem (Orchestrator_validate_request bogus_request) ''valid'' = Inr (JBool True)"
    "getitem (Orchestrator_validate_prd (dict_get bogus_request ''prd'')) ''valid'' = Inr (JBool True)"
    "getitem (Orchestrator_validate_request documented_request) ''valid'' = Inr (JBool True)"
    "getitem (Orchestrator_validate_prd (dict_get documented_request ''prd'')) ''valid'' = Inr (JBool True)"
    by (simp_all add: orch_request_valid_iff orch_prd_valid_iff bogus_request_def
        documented_request_def has_key_def dict_get_def)
  have d: "bogus_request \<noteq> documented_request"
    by (simp add: bogus_request_def documented_request_def)
  show ?thesis
    using C9_plan_independent_of_input [OF h, of "''1a2b3c4d''" "''t1''" "''99999999''" "''t2''"] h d
    by simp
qed

text \<open>
  The loop over the required fields, in both validators, stops at the first field that
  the request lacks.
\<close>

lemma find_first_missing:
  assumes "required = pre @ field # post" "\<forall>g\<in>set pre. has_key request g" "\<not> has_key request field"
  shows "find (\<lambda>f. \<not> has_key request f) required = Some field"
  using assms by (induction pre arbitrary: required) auto

lemma no_other_field_in_message:
  assumes "field \<in> set required_fields" "g \<in> set required_fields" "g \<noteq> field"
  shows "\<not> sublist g (''Missing required field: '' @ field)"
    and "\<not> sublist g (''Missing field: '' @ field)"
  using assms by (auto simp: required_fields_def sublist_code)

text \<open>
  C2, as stated, fails: the empty request lacks all three required fields, and the error
  of either validator names \<^verbatim>\<open>type\<close> only; neither \<^verbatim>\<open>action\<close> nor \<^verbatim>\<open>description\<close>
  occurs in it.
\<close>

theorem C2_only_first_missing_field_reported:
  "\<not> has_key [] ''type'' \<and> \<not> has_key [] ''action'' \<and> \<not> has_key [] ''description''
   \<and> UserPromptSubmitValidator_validate_request ''t'' [] =
           Inr (JObj [(''valid'', JBool False),
                      (''error'', JStr ''Missing required field: type''),
                      (''timestamp'', JStr ''t'')])
   \<and> \<not> sublist ''action'' ''Missing required field: type''
   \<and> \<not> sublist ''description'' ''Missing required field: type''
   \<and> Orchestrator_validate_request [] =
           JObj [(''valid'', JBool False), (''error'', JStr ''Missing field: type'')]
   \<and> \<not> sublist ''action'' ''Missing field: type''
   \<and> \<not> sublist ''description'' ''Missing field: type''"
  by (simp add: UserPromptSubmitValidator_validate_request_def Orchestrator_validate_request_def
        required_fields_def has_key_def sublist_code)

text \<open>
  C2, amended: for every request that lacks at least one of the required fields type,
  action, description, both request validators return \<^verbatim>\<open>valid: false\<close> with one error
  string, which names the first missing field in that order and no other required field.
  Here \<open>field\<close> is the first missing field: the fields \<open>pre\<close> before it are present.
\<close>

theorem C2_first_missing_field_reported:
  assumes "required_fields = pre @ field # post"
    and "\<forall>g\<in>set pre. has_key request g"
    and "\<not> has_key request field"
  shows "UserPromptSubmitValidator_validate_request ts request =
           Inr (JObj [(''valid'', JBool False),
                      (''error'', JStr (''Missing required field: '' @ field)),
                      (''timestamp'', JStr ts)])
       \<and> Orchestrator_validate_request request =
           JObj [(''valid'', JBool False), (''error'', JStr (''Missing field: '' @ field))]
       \<and> (\<forall>g\<in>set required_fields. g \<noteq> field \<longrightarrow>
             \<not> sublist g (''Missing required field: '' @ field)
           \<and> \<not> sublist g (''Missing field: '' @ field))"
proof -
  have f: "find (\<lambda>f. \<not> has_key request f) required_fields = Some field"
    using find_first_missing [OF assms] .
  have m: "field \<in> set required_fields"
    by (simp add: assms(1))
  show ?thesis
    using f no_other_field_in_message [OF m]
    by (simp add: UserPromptSubmitValidator_validate_request_def Orchestrator_validate_request_def
        required_fields_def [symmetric])
qed

text \<open>
  The amended C2 at a request that has a type and lacks both action and description:
  the error names action.
\<close>

theorem C2_first_missing_field_reported_witness:
  "required_fields = [''type''] @ ''action'' # [''description'']
   \<and> has_key type_only_request ''type''
   \<and> \<not> has_key type_only_request ''action''
   \<and> \<not> has_key type_only_request ''description''
   \<and> UserPromptSubmitValidator_validate_request ''t'' type_only_request =
           Inr (JObj [(''valid'', JBool False),
                      (''error'', JStr ''Missing required field: action''),
                      (''timestamp'', JStr ''t'')])
   \<and> Orchestrator_validate_request type_only_request =
           JObj [(''valid'', JBool False), (''error'', JStr ''Missing field: action'')]"
proof -
  have h: "required_fields = [''type''] @ ''action'' # [''description'']"
    "\<forall>g\<in>set [''type'']. has_key type_only_request g"
    "\<not> has_key type_only_request ''action''"
    by (simp_all add: required_fields_def type_only_request_def has_key_def)
  have d: "\<not> has_key type_only_request ''description''"
    by (simp add: type_only_request_def has_key_def)
  show ?thesis
    using C2_first_missing_field_reported [OF h, of "''t''"] h d by simp
qed

section \<open>The PRD validator\<close>

lemma missing_section_issues_filter:
  "missing_section_issues prd_content =
     map section_issue (filter (\<lambda>s. \<not> has_key prd_content s) required_sections)"
proof -
  have "concat (map (\<lambda>s. if P s then [f s] else []) xs) = map f (filter P xs)"
    for P f and xs :: "string list"
    by (induction xs) simp_all
  then show ?thesis
    by (simp add: missing_section_issues_def)
qed

text \<open>
  C10: for every PRD document that contains the eight required sections and none of the
  keys \<^verbatim>\<open>features\<close>, \<^verbatim>\<open>success_metrics\<close>, \<^verbatim>\<open>constraints\<close>, \<^verbatim>\<open>PRDValidator.validate_prd\<close>
  returns \<^verbatim>\<open>valid: true\<close> with an empty issue list: none of the three sub-checks runs.
\<close>

theorem C10_sections_alone_validate:
  assumes "\<forall>s\<in>set required_sections. has_key prd_content s"
    and "\<not> has_key prd_content ''features''"
    and "\<not> has_key prd_content ''success_metrics''"
    and "\<not> has_key prd_content ''constraints''"
  shows "PRDValidator_validate_prd ts prd_content =
           Inr (JObj [(''valid'', JBool True), (''issues'', JArr []), (''timestamp'', JStr ts)])"
proof -
  have "filter (\<lambda>s. \<not> has_key prd_content s) required_sections = []"
    using assms(1) by (simp add: filter_empty_conv)
  then have "missing_section_issues prd_content = []"
    by (simp add: missing_section_issues_filter)
  then show ?thesis
    using assms(2-4) by (simp add: PRDValidator_validate_prd_def extend_if_present_def)
qed

text \<open>C10 at a document that has the eight sections and nothing else.\<close>

theorem C10_sections_alone_validate_witness:
  "list_all (has_key sections_only_prd) required_sections
   \<and> \<not> has_key sections_only_prd ''features''
   \<and> \<not> has_key sections_only_prd ''success_metrics''
   \<and> \<not> has_key sections_only_prd ''constraints''
   \<and> PRDValidator_validate_prd ''t'' sections_only_prd =
           Inr (JObj [(''valid'', JBool True), (''issues'', JArr []), (''timestamp'', JStr ''t'')])"
proof -
  have h: "\<forall>s\<in>set required_sections. has_key sections_only_prd s"
    "\<not> has_key sections_only_prd ''features''"
    "\<not> has_key sections_only_prd ''success_metrics''"
    "\<not> has_key sections_only_prd ''constraints''"
    by (simp_all add: required_sections_def sections_only_prd_def has_key_def)
  show ?thesis
    using C10_sections_alone_validate [OF h, of "''t''"] h by (simp add: list_all_iff)
qed

lemma collectE_pure:
  "(\<And>x. x \<in> set xs \<Longrightarrow> f x = Inr (g x)) \<Longrightarrow> collectE f xs = Inr (concat (map g xs))"
  by (induction xs) simp_all

lemma collectE_set:
  "collectE f xs = Inr ys \<Longrightarrow> y \<in> set ys \<Longrightarrow> \<exists>x\<in>set xs. \<exists>zs. f x = Inr zs \<and> y \<in> set zs"
proof (induction xs arbitrary: ys)
  case Nil
  then show ?case by simp
next
  case (Cons x xs)
  from Cons.prems(1) obtain zs ws where z: "f x = Inr zs" and w: "collectE f xs = Inr ws"
    and ys: "ys = zs @ ws"
    by (auto simp: bindE_eq_Inr)
  show ?case
  proof (cases "y \<in> set zs")
    case True
    with z show ?thesis by auto
  next
    case False
    with Cons.prems(2) ys have "y \<in> set ws" by simp
    from Cons.IH [OF w this] show ?thesis by auto
  qed
qed

lemma extend_if_present_cases:
  assumes "extend_if_present doc key check issues = Inr out"
  shows "\<exists>new. out = issues @ new \<and> (new = [] \<or> (\<exists>v. check v = Inr new))"
  using assms by (auto simp: extend_if_present_def bindE_eq_Inr split: if_splits)

lemma section_issue_prefix: "prefix ''Missing section: '' (section_issue s)"
  by (simp add: section_issue_def)

lemma feature_issues_no_section:
  assumes "PRDValidator_validate_features features = Inr new" "i \<in> set new"
  shows "\<not> prefix ''Missing section: '' i"
proof -
  have "i = ''No features defined'' \<or> (\<exists>idx field. i = feature_issue idx field)"
  proof (cases "new = [''No features defined'']")
    case True
    with assms(2) show ?thesis by simp
  next
    case False
    with assms(1) obtain fs where
      c: "collectE (\<lambda>(idx, feature).
              collectE (\<lambda>field.
                  bindE (py_contains feature field) (\<lambda>present.
                    Inr (if \<not> present then [feature_issue idx field] else [])))
                required_feature_fields) fs = Inr new"
      by (auto simp: PRDValidator_validate_features_def bindE_eq_Inr split: if_splits)
    from collectE_set [OF c assms(2)] obtain idx feature zs where
      z: "collectE (\<lambda>field.
                  bindE (py_contains feature field) (\<lambda>present.
                    Inr (if \<not> present then [feature_issue idx field] else [])))
                required_feature_fields = Inr zs" and iz: "i \<in> set zs"
      by auto
    from collectE_set [OF z iz] obtain field where "i = feature_issue idx field"
      by (auto simp: bindE_eq_Inr split: if_splits)
    then show ?thesis by blast
  qed
  then show ?thesis
    by (auto simp: feature_issue_def)
qed

lemma metric_issues_no_section:
  assumes "PRDValidator_validate_metrics metrics = Inr new" "i \<in> set new"
  shows "\<not> prefix ''Missing section: '' i"
  using collectE_set [OF assms [unfolded PRDValidator_validate_metrics_def]]
  by (auto simp: bindE_eq_Inr split: if_splits)

lemma constraint_issues_no_section:
  assumes "PRDValidator_validate_constraints constraints = Inr new" "i \<in> set new"
  shows "\<not> prefix ''Missing section: '' i"
  using collectE_set [OF assms [unfolded PRDValidator_validate_constraints_def]]
  by (auto simp: bindE_eq_Inr split: if_splits)

lemma validate_prd_issues:
  assumes "PRDValidator_validate_prd ts prd_content = Inr res"
  shows "\<exists>rest. res = JObj [(''valid'', JBool (missing_section_issues prd_content @ rest = [])),
                             (''issues'', JArr (map JStr (missing_section_issues prd_content @ rest))),
                             (''timestamp'', JStr ts)]
               \<and> (\<forall>i\<in>set rest. \<not> prefix ''Missing section: '' i)"
proof -
  let ?i0 = "missing_section_issues prd_content"
  from assms obtain i1 i2 i3 where
    e1: "extend_if_present prd_content ''features'' PRDValidator_validate_features ?i0 = Inr i1" and
    e2: "extend_if_present prd_content ''success_metrics'' PRDValidator_validate_metrics i1 = Inr i2" and
    e3: "extend_if_present prd_content ''constraints'' PRDValidator_validate_constraints i2 = Inr i3" and
    r: "res = JObj [(''valid'', JBool (length i3 = 0)), (''issues'', JArr (map JStr i3)),
                    (''timestamp'', JStr ts)]"
    by (auto simp: PRDValidator_validate_prd_def bindE_eq_Inr Let_def)
  from extend_if_present_cases [OF e1] obtain n1 where
    n1: "i1 = ?i0 @ n1" "n1 = [] \<or> (\<exists>v. PRDValidator_validate_features v = Inr n1)" by blast
  from extend_if_present_cases [OF e2] obtain n2 where
    n2: "i2 = i1 @ n2" "n2 = [] \<or> (\<exists>v. PRDValidator_validate_metrics v = Inr n2)" by blast
  from extend_if_present_cases [OF e3] obtain n3 where
    n3: "i3 = i2 @ n3" "n3 = [] \<or> (\<exists>v. PRDValidator_validate_constraints v = Inr n3)" by blast
  have "\<forall>i\<in>set n1. \<not> prefix ''Missing section: '' i"
    using n1(2) feature_issues_no_section by auto
  moreover have "\<forall>i\<in>set n2. \<not> prefix ''Missing section: '' i"
    using n2(2) metric_issues_no_section by auto
  moreover have "\<forall>i\<in>set n3. \<not> prefix ''Missing section: '' i"
    using n3(2) constraint_issues_no_section by auto
  ultimately have "\<forall>i\<in>set (n1 @ n2 @ n3). \<not> prefix ''Missing section: '' i"
    by auto
  moreover have "i3 = ?i0 @ (n1 @ n2 @ n3)"
    using n1(1) n2(1) n3(1) by simp
  ultimately show ?thesis
    using r by auto
qed

lemma count_list_distinct: "distinct xs \<Longrightarrow> x \<in> set xs \<Longrightarrow> count_list xs x = 1"
  by (induction xs) auto

lemma distinct_required_sections: "distinct required_sections"
  by (simp add: required_sections_def)

lemma count_missing_section:
  assumes "s \<in> set required_sections"
  shows "count_list (missing_section_issues prd_content) (section_issue s)
           = (if has_key prd_content s then 0 else 1)"
proof -
  let ?xs = "filter (\<lambda>s. \<not> has_key prd_content s) required_sections"
  have inj: "inj_on section_issue A" for A
    by (simp add: inj_on_def section_issue_def)
  have d: "distinct ?xs"
    using distinct_required_sections by simp
  show ?thesis
  proof (cases "has_key prd_content s")
    case True
    then have "s \<notin> set ?xs" by simp
    then have "section_issue s \<notin> set (map section_issue ?xs)"
      using inj [of UNIV] by (auto simp: inj_on_def)
    then show ?thesis
      using True by (simp add: missing_section_issues_filter)
  next
    case False
    with assms have m: "s \<in> set ?xs" by simp
    have "count_list (map section_issue ?xs) (section_issue s) = count_list ?xs s"
      using count_list_inj_map [OF inj m] .
    also have "\<dots> = 1"
      using d m by (rule count_list_distinct)
    finally show ?thesis
      using False by (simp add: missing_section_issues_filter)
  qed
qed

text \<open>
  C7: for every PRD document, the issues of the presence check are the entries
  \<^verbatim>\<open>Missing section: s\<close> for the required sections \<open>s\<close> that the document lacks, in the
  order of the required list; so for every required section \<open>s\<close> the entry naming \<open>s\<close>
  occurs exactly once when \<open>s\<close> is absent and not at all when \<open>s\<close> is present. Whenever
  \<^verbatim>\<open>PRDValidator.validate_prd\<close> returns, its issue list starts with these entries, and
  no later issue names a section.
\<close>

theorem C7_section_issues:
  "missing_section_issues prd_content
     = map section_issue (filter (\<lambda>s. \<not> has_key prd_content s) required_sections)
   \<and> (\<forall>s\<in>set required_sections.
         count_list (missing_section_issues prd_content) (section_issue s)
           = (if has_key prd_content s then 0 else 1))
   \<and> (\<forall>res. PRDValidator_validate_prd ts prd_content = Inr res \<longrightarrow>
         (\<exists>rest. getitem res ''issues''
                    = Inr (JArr (map JStr (missing_section_issues prd_content @ rest)))
                \<and> (\<forall>s. section_issue s \<notin> set rest)))"
proof -
  have "\<exists>rest. getitem res ''issues''
                    = Inr (JArr (map JStr (missing_section_issues prd_content @ rest)))
                \<and> (\<forall>s. section_issue s \<notin> set rest)"
    if "PRDValidator_validate_prd ts prd_content = Inr res" for res
  proof -
    from validate_prd_issues [OF that] obtain rest where
      r: "res = JObj [(''valid'', JBool (missing_section_issues prd_content @ rest = [])),
                             (''issues'', JArr (map JStr (missing_section_issues prd_content @ rest))),
                             (''timestamp'', JStr ts)]"
      and n: "\<forall>i\<in>set rest. \<not> prefix ''Missing section: '' i"
      by blast
    have "\<forall>s. section_issue s \<notin> set rest"
      using n section_issue_prefix by blast
    with r show ?thesis
      by (auto simp: dict_item_def)
  qed
  then show ?thesis
    using missing_section_issues_filter count_missing_section by blast
qed


text \<open>
  C7 at a document that has the sections Timeline and Executive Summary and an empty
  feature list: six section issues in the order of the required list, then the issue
  of the feature check.
\<close>

theorem C7_section_issues_witness:
  "''Timeline'' \<in> set required_sections \<and> has_key partial_prd ''Timeline''
   \<and> count_list (missing_section_issues partial_prd) (section_issue ''Timeline'') = 0
   \<and> ''Non-Goals'' \<in> set required_sections \<and> \<not> has_key partial_prd ''Non-Goals''
   \<and> count_list (missing_section_issues partial_prd) (section_issue ''Non-Goals'') = 1
   \<and> missing_section_issues partial_prd =
        [''Missing section: Problem Statement'', ''Missing section: Target Users/Personas'',
         ''Missing section: Core Features'', ''Missing section: Success Metrics'',
         ''Missing section: Constraints'', ''Missing section: Non-Goals'']
   \<and> result_field (PRDValidator_validate_prd ''t'' partial_prd) ''issues'' =
        Inr (JArr (map JStr (missing_section_issues partial_prd @ [''No features defined''])))"
proof -
  have k: "''Timeline'' \<in> set required_sections" "has_key partial_prd ''Timeline''"
    "''Non-Goals'' \<in> set required_sections" "\<not> has_key partial_prd ''Non-Goals''"
    by (simp_all add: required_sections_def partial_prd_def has_key_def)
  have f: "filter (\<lambda>s. \<not> has_key partial_prd s) required_sections =
             [''Problem Statement'', ''Target Users/Personas'', ''Core Features'',
              ''Success Metrics'', ''Constraints'', ''Non-Goals'']"
    by (simp add: required_sections_def partial_prd_def has_key_def)
  have v: "PRDValidator_validate_prd ''t'' partial_prd =
     Inr (JObj [(''valid'', JBool False),
                (''issues'', JArr (map JStr (missing_section_issues partial_prd @ [''No features defined'']))),
                (''timestamp'', JStr ''t'')])"
    by (simp add: PRDValidator_validate_prd_def extend_if_present_def partial_prd_def has_key_def
        dict_item_def PRDValidator_validate_features_def Let_def)
  show ?thesis
    using C7_section_issues [of partial_prd "''t''"] k f v
    by (simp add: result_field_def dict_item_def section_issue_def)
qed

lemma digit_char_inj: "a < 10 \<Longrightarrow> b < 10 \<Longrightarrow> digit_char a = digit_char b \<Longrightarrow> a = b"
proof -
  assume "a < 10" "b < 10" "digit_char a = digit_char b"
  moreover have "a < 10 \<Longrightarrow> a \<in> {0, 1, 2, 3, 4, 5, 6, 7, 8, 9}" for a :: nat by auto
  ultimately have "a \<in> {0, 1, 2, 3, 4, 5, 6, 7, 8, 9}" "b \<in> {0, 1, 2, 3, 4, 5, 6, 7, 8, 9}" by blast+
  with \<open>digit_char a = digit_char b\<close> show ?thesis
    by (auto simp: digit_char_def)
qed

lemma digit_char_not_colon: "a < 10 \<Longrightarrow> digit_char a \<noteq> CHR '':''"
proof -
  assume "a < 10"
  then have "a \<in> {0, 1, 2, 3, 4, 5, 6, 7, 8, 9}" by auto
  then show ?thesis
    by (auto simp: digit_char_def)
qed

lemma show_nat_not_Nil: "show_nat n \<noteq> []"
  by (subst show_nat.simps) simp

lemma show_nat_no_colon: "CHR '':'' \<notin> set (show_nat n)"
proof (induction n rule: show_nat.induct)
  case (1 n)
  show ?case
  proof (cases "n < 10")
    case True
    then show ?thesis
      using digit_char_not_colon [of n] by (subst show_nat.simps) auto
  next
    case False
    then show ?thesis
      using 1 digit_char_not_colon [of "n mod 10"] by (subst show_nat.simps) auto
  qed
qed

lemma show_nat_inj: "show_nat n = show_nat m \<Longrightarrow> n = m"
proof (induction n arbitrary: m rule: show_nat.induct)
  case (1 n)
  show ?case
  proof (cases "n < 10")
    case n: True
    show ?thesis
    proof (cases "m < 10")
      case True
      with n "1.prems" show ?thesis
        by (simp add: show_nat.simps [of n] show_nat.simps [of m] digit_char_inj)
    next
      case False
      with n "1.prems" show ?thesis
        using show_nat_not_Nil [of "m div 10"]
        by (simp add: show_nat.simps [of n] show_nat.simps [of m])
    qed
  next
    case n: False
    show ?thesis
    proof (cases "m < 10")
      case True
      with n "1.prems" show ?thesis
        using show_nat_not_Nil [of "n div 10"]
        by (simp add: show_nat.simps [of n] show_nat.simps [of m])
    next
      case False
      with n "1.prems" have e: "show_nat (n div 10) = show_nat (m div 10)"
        and d: "digit_char (n mod 10) = digit_char (m mod 10)"
        by (simp_all add: show_nat.simps [of n] show_nat.simps [of m])
      from "1.IH" [OF n e] have "n div 10 = m div 10" .
      moreover from d have "n mod 10 = m mod 10"
        by (intro digit_char_inj) simp_all
      ultimately show ?thesis
        by (metis div_mult_mod_eq)
    qed
  qed
qed

lemma split_at_char:
  "xs @ c # r = ys @ c # s \<Longrightarrow> c \<notin> set xs \<Longrightarrow> c \<notin> set ys \<Longrightarrow> xs = ys \<and> r = s"
proof (induction xs arbitrary: ys)
  case Nil
  then show ?case by (cases ys) auto
next
  case (Cons x xs)
  then show ?case by (cases ys) auto
qed

lemma feature_issue_inj:
  assumes "feature_issue i f = feature_issue j g"
  shows "i = j \<and> f = g"
proof -
  from assms have "show_nat i @ CHR '':'' # ('' missing field '' @ [CHR 0x27] @ f @ [CHR 0x27])
      = show_nat j @ CHR '':'' # ('' missing field '' @ [CHR 0x27] @ g @ [CHR 0x27])"
    by (simp add: feature_issue_def)
  from split_at_char [OF this show_nat_no_colon show_nat_no_colon]
  show ?thesis
    by (auto dest: show_nat_inj)
qed


lemma dict_feature_issues_Nil [simp]: "dict_feature_issues n [] = []"
  by (simp add: dict_feature_issues_def)

lemma dict_feature_issues_Cons [simp]:
  "dict_feature_issues n (d # ds) =
     map (feature_issue n) (filter (\<lambda>f. \<not> has_key d f) required_feature_fields)
     @ dict_feature_issues (Suc n) ds"
  by (simp add: dict_feature_issues_def)

lemma feature_fields_loop:
  "collectE (\<lambda>field. Inr (if \<not> has_key d field then [feature_issue idx field] else [])) fields
     = Inr (map (feature_issue idx) (filter (\<lambda>f. \<not> has_key d f) fields))"
  by (induction fields) simp_all

lemma features_loop:
  "collectE (\<lambda>(idx, feature).
       collectE (\<lambda>field.
           bindE (py_contains feature field) (\<lambda>present.
             Inr (if \<not> present then [feature_issue idx field] else [])))
         required_feature_fields)
     (enumerate n (map JObj ds))
   = Inr (dict_feature_issues n ds)"
  by (induction ds arbitrary: n) (simp_all add: feature_fields_loop)

lemma validate_features_dicts:
  assumes "ds \<noteq> []"
  shows "PRDValidator_validate_features (JArr (map JObj ds)) = Inr (dict_feature_issues 0 ds)"
  using assms by (simp add: PRDValidator_validate_features_def features_loop)

lemma length_dict_feature_issues:
  assumes "\<forall>d\<in>set ds. length (filter (\<lambda>f. \<not> has_key d f) required_feature_fields) = M"
  shows "length (dict_feature_issues n ds) = length ds * M"
  using assms by (induction ds arbitrary: n) simp_all

lemma set_dict_feature_issues:
  "set (dict_feature_issues n ds) =
     {feature_issue idx field | idx field.
        n \<le> idx \<and> idx < n + length ds \<and> field \<in> set required_feature_fields
        \<and> \<not> has_key (ds ! (idx - n)) field}"
proof (induction ds arbitrary: n)
  case Nil
  then show ?case by simp
next
  case (Cons d ds)
  have "{feature_issue idx field | idx field.
        n \<le> idx \<and> idx < n + length (d # ds) \<and> field \<in> set required_feature_fields
        \<and> \<not> has_key ((d # ds) ! (idx - n)) field}
      = {feature_issue n field | field. field \<in> set required_feature_fields \<and> \<not> has_key d field}
        \<union> {feature_issue idx field | idx field.
        Suc n \<le> idx \<and> idx < Suc n + length ds \<and> field \<in> set required_feature_fields
        \<and> \<not> has_key (ds ! (idx - Suc n)) field}" (is "?L = ?A \<union> ?B")
  proof (intro set_eqI iffI)
    fix x assume "x \<in> ?L"
    then obtain idx field where x: "x = feature_issue idx field" "n \<le> idx" "idx < n + length (d # ds)"
      "field \<in> set required_feature_fields" "\<not> has_key ((d # ds) ! (idx - n)) field"
      by blast
    show "x \<in> ?A \<union> ?B"
    proof (cases "idx = n")
      case True
      with x show ?thesis by auto
    next
      case False
      with x(2) have "Suc n \<le> idx" by simp
      moreover from this have "(d # ds) ! (idx - n) = ds ! (idx - Suc n)"
        by (simp add: Suc_diff_Suc Suc_le_eq)
      ultimately have "x \<in> ?B"
        using x by auto
      then show ?thesis by simp
    qed
  next
    fix x assume "x \<in> ?A \<union> ?B"
    then show "x \<in> ?L"
    proof
      assume "x \<in> ?A"
      then obtain field where "x = feature_issue n field" "field \<in> set required_feature_fields"
        "\<not> has_key d field"
        by blast
      then have "x = feature_issue n field \<and> n \<le> n \<and> n < n + length (d # ds)
          \<and> field \<in> set required_feature_fields \<and> \<not> has_key ((d # ds) ! (n - n)) field"
        by simp
      then show ?thesis by blast
    next
      assume "x \<in> ?B"
      then obtain idx field where x: "x = feature_issue idx field" "Suc n \<le> idx"
        "idx < Suc n + length ds" "field \<in> set required_feature_fields"
        "\<not> has_key (ds ! (idx - Suc n)) field"
        by blast
      from x(2) have "(d # ds) ! (idx - n) = ds ! (idx - Suc n)"
        by (simp add: Suc_diff_Suc Suc_le_eq)
      with x have "x = feature_issue idx field \<and> n \<le> idx \<and> idx < n + length (d # ds)
          \<and> field \<in> set required_feature_fields \<and> \<not> has_key ((d # ds) ! (idx - n)) field"
        by simp
      then show ?thesis by blast
    qed
  qed
  moreover have "set (map (feature_issue n) (filter (\<lambda>f. \<not> has_key d f) required_feature_fields)) = ?A"
    by auto
  ultimately show ?case
    using Cons.IH [of "Suc n"] by simp
qed

lemma distinct_dict_feature_issues: "distinct (dict_feature_issues n ds)"
proof (induction ds arbitrary: n)
  case Nil
  then show ?case by simp
next
  case (Cons d ds)
  have "distinct required_feature_fields"
    by (simp add: required_feature_fields_def)
  then have a: "distinct (map (feature_issue n) (filter (\<lambda>f. \<not> has_key d f) required_feature_fields))"
    by (auto simp: distinct_map inj_on_def dest: feature_issue_inj)
  have b: "set (map (feature_issue n) (filter (\<lambda>f. \<not> has_key d f) required_feature_fields))
        \<inter> set (dict_feature_issues (Suc n) ds) = {}"
    by (auto simp: set_dict_feature_issues dest!: feature_issue_inj)
  show ?case
    using a b Cons.IH [of "Suc n"] by simp
qed

text \<open>
  C8: on a feature value that is false (the empty list, null, and so on),
  \<^verbatim>\<open>PRDValidator._validate_features\<close> returns the single issue \<^verbatim>\<open>No features defined\<close>.
  On a list of \<open>N \<ge> 1\<close> dictionaries that each lack \<open>M\<close> of the four required fields it
  returns \<open>N * M\<close> issues, all different: exactly the issues \<open>feature_issue idx field\<close>
  for the zero-based positions \<open>idx\<close> and the fields that the entry at \<open>idx\<close> lacks.
  An issue determines its position and its field.
\<close>

theorem C8_feature_issues:
  "(\<not> truthy features \<longrightarrow> PRDValidator_validate_features features = Inr [''No features defined''])
   \<and> (ds \<noteq> [] \<and> (\<forall>d\<in>set ds. length (filter (\<lambda>f. \<not> has_key d f) required_feature_fields) = M)
        \<longrightarrow> (\<exists>issues. PRDValidator_validate_features (JArr (map JObj ds)) = Inr issues
               \<and> length issues = length ds * M
               \<and> distinct issues
               \<and> set issues = {feature_issue idx field | idx field.
                                 idx < length ds \<and> field \<in> set required_feature_fields
                                 \<and> \<not> has_key (ds ! idx) field}))
   \<and> (\<forall>i j f g. feature_issue i f = feature_issue j g \<longrightarrow> i = j \<and> f = g)"
proof (intro conjI impI)
  assume "\<not> truthy features"
  then show "PRDValidator_validate_features features = Inr [''No features defined'']"
    by (simp add: PRDValidator_validate_features_def)
next
  assume a: "ds \<noteq> [] \<and> (\<forall>d\<in>set ds. length (filter (\<lambda>f. \<not> has_key d f) required_feature_fields) = M)"
  have "set (dict_feature_issues 0 ds) = {feature_issue idx field | idx field.
                                 idx < length ds \<and> field \<in> set required_feature_fields
                                 \<and> \<not> has_key (ds ! idx) field}"
    using set_dict_feature_issues [of 0 ds] by simp
  then show "\<exists>issues. PRDValidator_validate_features (JArr (map JObj ds)) = Inr issues
               \<and> length issues = length ds * M
               \<and> distinct issues
               \<and> set issues = {feature_issue idx field | idx field.
                                 idx < length ds \<and> field \<in> set required_feature_fields
                                 \<and> \<not> has_key (ds ! idx) field}"
    using a validate_features_dicts [of ds] length_dict_feature_issues [of ds M 0]
      distinct_dict_feature_issues [of 0 ds]
    by simp
next
  show "\<forall>i j f g. feature_issue i f = feature_issue j g \<longrightarrow> i = j \<and> f = g"
    using feature_issue_inj by blast
qed


text \<open>
  C8 at the empty list, and at two entries that lack two fields each: four issues.
\<close>

theorem C8_feature_issues_witness:
  "\<not> truthy (JArr [])
   \<and> PRDValidator_validate_features (JArr []) = Inr [''No features defined'']
   \<and> two_features \<noteq> []
   \<and> map (\<lambda>d. length (filter (\<lambda>f. \<not> has_key d f) required_feature_fields)) two_features = [2, 2]
   \<and> PRDValidator_validate_features (JArr (map JObj two_features)) =
        Inr [feature_issue 0 ''description'', feature_issue 0 ''acceptance_criteria'',
             feature_issue 1 ''name'', feature_issue 1 ''priority'']
   \<and> feature_issue 1 ''name'' = ''Feature 1: missing field '' @ [CHR 0x27] @ ''name'' @ [CHR 0x27]"
proof -
  have h: "\<not> truthy (JArr [])" "two_features \<noteq> []"
    "\<forall>d\<in>set two_features. length (filter (\<lambda>f. \<not> has_key d f) required_feature_fields) = 2"
    by (simp_all add: two_features_def required_feature_fields_def has_key_def)
  have v: "PRDValidator_validate_features (JArr (map JObj two_features)) =
        Inr [feature_issue 0 ''description'', feature_issue 0 ''acceptance_criteria'',
             feature_issue 1 ''name'', feature_issue 1 ''priority'']"
    by (subst validate_features_dicts)
      (simp_all add: two_features_def required_feature_fields_def has_key_def)
  have s: "feature_issue 1 ''name'' = ''Feature 1: missing field '' @ [CHR 0x27] @ ''name'' @ [CHR 0x27]"
    by (simp add: feature_issue_def show_nat.simps digit_char_def)
  have m: "map (\<lambda>d. length (filter (\<lambda>f. \<not> has_key d f) required_feature_fields)) two_features = [2, 2]"
    by (simp add: two_features_def required_feature_fields_def has_key_def)
  show ?thesis
    using C8_feature_issues [of "JArr []" two_features 2] h v s m by simp
qed

section \<open>The performance guard\<close>

text \<open>The overflow threshold as a numeral, for evaluation.\<close>

lemma double_overflow_code [code]:
  "double_overflow = 179769313486231590772930519078902473361797697894230657273430081157732675805500963132708477322407536021120113879871393357658789768814416622492847430639474124377767893424865485276302219601246094119453082952085005768838150682342462881473913110540827237163350510684586298239947245938479716304835356329624224137216"
  by (simp add: double_overflow_def)

text \<open>
  The arithmetic of a size that is exactly 110% of its budget: the quotient rounds to
  the double next to \<open>11 / 10\<close>, which is above it, and the product with 100 rounds to
  the double after 110.
\<close>

lemma ratio_110_percent:
  "int_truediv 330 300 = Inr (FVal (2476979795053773 / 2251799813685248))"
  "int_truediv 1100 1000 = Inr (FVal (2476979795053773 / 2251799813685248))"
  "int_truediv 110 100 = Inr (FVal (2476979795053773 / 2251799813685248))"
  "bindE (int_to_float 75) (float_div (FVal (165 / 2)))
     = Inr (FVal (2476979795053773 / 2251799813685248))"
  by code_simp+

lemma percentage_110_percent:
  "float_mul_int (FVal (2476979795053773 / 2251799813685248)) 100
     = Inr (FVal (7740561859543041 / 70368744177664))"
  by code_simp

lemma round_110_percent: "py_round1 (FVal (7740561859543041 / 70368744177664)) = Inr (FVal 110)"
  by code_simp

lemma title_budget_keys:
  "title ''javascript'' = ''Javascript''" "title ''css'' = ''Css''"
  "title ''images'' = ''Images''" "title ''fonts'' = ''Fonts''"
  by code_simp+

lemma show_int_values:
  "show_int 330 = ''330''" "show_int 300 = ''300''" "show_int 75 = ''75''"
  "show_int 1100 = ''1100''" "show_int 1000 = ''1000''" "show_int 110 = ''110''"
  "show_int 100 = ''100''" "show_int 250 = ''250''" "show_int 200 = ''200''"
  by code_simp+

lemmas bundle_eval = check_bundle_entry_def bundle_sizes_budgets_def ratio_110_percent
  percentage_110_percent round_110_percent title_budget_keys show_int_values num_less_def

lemma javascript_330_entry:
  "check_bundle_entry frepr (''javascript'', JInt 330) =
     Inr [JObj [(''type'', JStr ''critical''),
                (''metric'', JStr ''Javascript bundle''),
                (''value'', JInt 330),
                (''budget'', JInt 300),
                (''unit'', JStr ''KB''),
                (''percentage'', JFloat (FVal 110)),
                (''message'', JStr ''javascript size (330KB) exceeds budget (300KB)'')]]"
  by (simp add: bundle_eval del: py_round1.simps)

text \<open>
  C5: for the metrics \<^verbatim>\<open>{"bundle_sizes": {"javascript": 330}}\<close>, with the JavaScript
  budget of 300, the performance guard returns exactly one violation, of severity
  critical, with value 330, budget 300 and percentage 110.0. The percentage computed
  in double precision is \<open>110 + 2 powi (- 46)\<close>, above 110; it is rounded to one decimal
  before it is reported.
\<close>

theorem C5_javascript_330_is_critical:
  "map_of bundle_sizes_budgets ''javascript'' = Some 300
   \<and> PerformanceGuard_validate_performance frepr ts javascript_330_metrics =
       Inr (JObj [(''valid'', JBool False),
                  (''violations'',
                     JArr [JObj [(''type'', JStr ''critical''),
                                 (''metric'', JStr ''Javascript bundle''),
                                 (''value'', JInt 330),
                                 (''budget'', JInt 300),
                                 (''unit'', JStr ''KB''),
                                 (''percentage'', JFloat (FVal 110)),
                                 (''message'', JStr ''javascript size (330KB) exceeds budget (300KB)'')]]),
                  (''warnings'', JArr []),
                  (''timestamp'', JStr ts)])"
  by (simp add: PerformanceGuard_validate_performance_def extend_if_present_def has_key_def
      dict_item_def PerformanceGuard_check_bundle_sizes_def javascript_330_entry
      javascript_330_metrics_def bundle_sizes_budgets_def)

text \<open>
  C4 against the code: for each of the four entries of the budget table, a size of
  exactly 110% of the budget (330 of 300, 82.5 of 75, 1100 of 1000, 110 of 100) yields
  a violation of severity critical, not warning.
\<close>

theorem C4_exactly_110_percent_is_critical:
  "check_bundle_entry frepr (''javascript'', JInt 330) =
     Inr [JObj [(''type'', JStr ''critical''),
                (''metric'', JStr ''Javascript bundle''),
                (''value'', JInt 330),
                (''budget'', JInt 300),
                (''unit'', JStr ''KB''),
                (''percentage'', JFloat (FVal 110)),
                (''message'', JStr ''javascript size (330KB) exceeds budget (300KB)'')]]
   \<and> check_bundle_entry frepr (''css'', JFloat (FVal (165 / 2))) =
     Inr [JObj [(''type'', JStr ''critical''),
                (''metric'', JStr ''Css bundle''),
                (''value'', JFloat (FVal (165 / 2))),
                (''budget'', JInt 75),
                (''unit'', JStr ''KB''),
                (''percentage'', JFloat (FVal 110)),
                (''message'', JStr (''css size ('' @ frepr (FVal (165 / 2)) @ ''KB) exceeds budget (75KB)''))]]
   \<and> check_bundle_entry frepr (''images'', JInt 1100) =
     Inr [JObj [(''type'', JStr ''critical''),
                (''metric'', JStr ''Images bundle''),
                (''value'', JInt 1100),
                (''budget'', JInt 1000),
                (''unit'', JStr ''KB''),
                (''percentage'', JFloat (FVal 110)),
                (''message'', JStr ''images size (1100KB) exceeds budget (1000KB)'')]]
   \<and> check_bundle_entry frepr (''fonts'', JInt 110) =
     Inr [JObj [(''type'', JStr ''critical''),
                (''metric'', JStr ''Fonts bundle''),
                (''value'', JInt 110),
                (''budget'', JInt 100),
                (''unit'', JStr ''KB''),
                (''percentage'', JFloat (FVal 110)),
                (''message'', JStr ''fonts size (110KB) exceeds budget (100KB)'')]]"
  by (simp add: bundle_eval del: py_round1.simps)

lemma slow_network_validation:
  "PerformanceGuard_validate_performance frepr ts slow_network_metrics =
     Inr (JObj [(''valid'', JBool False),
                (''violations'',
                   JArr [JObj [(''type'', JStr ''warning''), (''metric'', JStr ''ttfb''),
                               (''value'', JInt 250), (''budget'', JInt 200), (''unit'', JStr ''ms''),
                               (''message'', JStr ''ttfb (250ms) exceeds budget (200ms)'')]]),
                (''warnings'', JArr []),
                (''timestamp'', JStr ts)])"
  by (simp add: PerformanceGuard_validate_performance_def extend_if_present_def has_key_def
      dict_item_def PerformanceGuard_check_network_def check_network_entry_def network_budgets_def
      slow_network_metrics_def show_int_values num_less_def)


lemma budget_summary_value: "\<exists>summary. PerformanceGuard_get_budget_summary = Inr summary"
  by (simp add: PerformanceGuard_get_budget_summary_def budgets_def dict_item_def int_table_def)

lemma validate_performance_shape:
  assumes "PerformanceGuard_validate_performance frepr ts metrics = Inr res"
  shows "\<exists>violations. res = JObj [(''valid'', JBool (length violations = 0)),
                                    (''violations'', JArr violations),
                                    (''warnings'', JArr []),
                                    (''timestamp'', JStr ts)]"
  using assms
  by (auto simp: PerformanceGuard_validate_performance_def bindE_eq_Inr Let_def)

text \<open>
  C3: for every metrics mapping, whenever \<^verbatim>\<open>PerformanceGuard.validate_performance\<close>
  returns a result, its warnings list is empty; and whenever \<^verbatim>\<open>PerformanceGuard.process\<close>
  returns, its result either is the approval, which has no warnings entry, or is the
  rejection, whose warnings list is empty.
\<close>

theorem C3_warnings_always_empty:
  "(\<forall>res. PerformanceGuard_validate_performance frepr ts metrics = Inr res \<longrightarrow>
        getitem res ''warnings'' = Inr (JArr []))
   \<and> (\<forall>res. PerformanceGuard_process frepr ts metrics = Inr res \<longrightarrow>
          getitem res ''valid'' = Inr (JBool True) \<and> getitem res ''warnings'' = Inl KeyError
        \<or> getitem res ''valid'' = Inr (JBool False) \<and> getitem res ''warnings'' = Inr (JArr []))"
proof (intro conjI allI impI)
  fix res
  assume "PerformanceGuard_validate_performance frepr ts metrics = Inr res"
  from validate_performance_shape [OF this]
  show "getitem res ''warnings'' = Inr (JArr [])"
    by (auto simp: dict_item_def)
next
  fix res
  assume p: "PerformanceGuard_process frepr ts metrics = Inr res"
  then obtain validation where
    v: "PerformanceGuard_validate_performance frepr ts metrics = Inr validation"
    by (auto simp: PerformanceGuard_process_def bindE_eq_Inr)
  from validate_performance_shape [OF v] obtain violations where
    s: "validation = JObj [(''valid'', JBool (length violations = 0)),
                           (''violations'', JArr violations),
                           (''warnings'', JArr []),
                           (''timestamp'', JStr ts)]"
    by blast
  obtain summary where b: "PerformanceGuard_get_budget_summary = Inr summary"
    using budget_summary_value by blast
  have "PerformanceGuard_process frepr ts metrics =
          (if violations = [] then
             Inr (JObj [(''valid'', JBool True),
                        (''message'', JStr ''All performance budgets met''),
                        (''budget_summary'', summary),
                        (''timestamp'', JStr ts),
                        (''approved_for_merge'', JBool True)])
           else
             Inr (JObj [(''valid'', JBool False),
                        (''violations'', JArr violations),
                        (''warnings'', JArr []),
                        (''timestamp'', JStr ts),
                        (''action_required'', JStr ''Fix performance violations before merge''),
                        (''budget_summary'', summary)]))"
    by (simp add: PerformanceGuard_process_def v s b dict_item_def)
  with p show "getitem res ''valid'' = Inr (JBool True) \<and> getitem res ''warnings'' = Inl KeyError
        \<or> getitem res ''valid'' = Inr (JBool False) \<and> getitem res ''warnings'' = Inr (JArr [])"
    by (auto simp: dict_item_def split: if_splits)
qed

text \<open>
  C3 at metrics whose only violation has severity warning: it is in the violations
  list, and the warnings list is empty.
\<close>

theorem C3_warnings_always_empty_witness:
  "PerformanceGuard_validate_performance (\<lambda>x. ''?'') ''t'' slow_network_metrics =
     Inr (JObj [(''valid'', JBool False),
                (''violations'',
                   JArr [JObj [(''type'', JStr ''warning''), (''metric'', JStr ''ttfb''),
                               (''value'', JInt 250), (''budget'', JInt 200), (''unit'', JStr ''ms''),
                               (''message'', JStr ''ttfb (250ms) exceeds budget (200ms)'')]]),
                (''warnings'', JArr []),
                (''timestamp'', JStr ''t'')])
   \<and> result_field (PerformanceGuard_process (\<lambda>x. ''?'') ''t'' slow_network_metrics) ''valid''
       = Inr (JBool False)
   \<and> result_field (PerformanceGuard_process (\<lambda>x. ''?'') ''t'' slow_network_metrics) ''warnings''
       = Inr (JArr [])"
proof -
  obtain summary where b: "PerformanceGuard_get_budget_summary = Inr summary"
    using budget_summary_value by blast
  have p: "PerformanceGuard_process (\<lambda>x. ''?'') ''t'' slow_network_metrics =
     Inr (JObj [(''valid'', JBool False),
                (''violations'',
                   JArr [JObj [(''type'', JStr ''warning''), (''metric'', JStr ''ttfb''),
                               (''value'', JInt 250), (''budget'', JInt 200), (''unit'', JStr ''ms''),
                               (''message'', JStr ''ttfb (250ms) exceeds budget (200ms)'')]]),
                (''warnings'', JArr []),
                (''timestamp'', JStr ''t''),
                (''action_required'', JStr ''Fix performance violations before merge''),
                (''budget_summary'', summary)])"
    by (simp add: PerformanceGuard_process_def slow_network_validation b dict_item_def)
  show ?thesis
    using C3_warnings_always_empty [of "\<lambda>x. ''?''" "''t''" slow_network_metrics]
      slow_network_validation [of "\<lambda>x. ''?''" "''t''"] p
    by (simp add: result_field_def dict_item_def)
qed

subsection \<open>Rounding to a double\<close>

text \<open>\<open>binade\<close> computes the binade of a positive rational.\<close>

lemma binade_bounds:
  assumes "0 < x"
  shows "2 powi binade x \<le> x" and "x < 2 powi (binade x + 1)"
proof -
  have "2 powi binade x \<le> x \<and> x < 2 powi (binade x + 1)"
  proof (cases "1 \<le> x")
    case True
    define n where "n = \<lfloor>x\<rfloor>"
    have n: "1 \<le> n" "of_int n \<le> x" "x < of_int n + 1"
    proof -
      show "1 \<le> n" using True by (simp add: n_def le_floor_iff)
      show "of_int n \<le> x" by (simp add: n_def)
      show "x < of_int n + 1" unfolding n_def by linarith
    qed
    from bitlen_bounds [of n] n(1)
    have b: "2 ^ nat (bitlen n - 1) \<le> n" "n < 2 ^ nat (bitlen n)" by simp_all
    have k: "1 \<le> bitlen n"
      using n(1) bitlen_eq_zero_iff [of n] bitlen_nonneg [of n] by linarith
    have e: "binade x = bitlen n - 1"
      using True by (simp add: binade_def n_def)
    have "(2::rat) ^ nat (bitlen n - 1) = of_int (2 ^ nat (bitlen n - 1))" by simp
    also have "\<dots> \<le> of_int n" using b(1) by (simp only: of_int_le_iff)
    finally have "(2::rat) ^ nat (bitlen n - 1) \<le> of_int n" .
    then have lo: "(2::rat) ^ nat (bitlen n - 1) \<le> x" using n(2) by linarith
    have "n + 1 \<le> 2 ^ nat (bitlen n)" using b(2) by simp
    then have "(of_int (n + 1) :: rat) \<le> of_int (2 ^ nat (bitlen n))" by (simp only: of_int_le_iff)
    then have "of_int n + 1 \<le> (2::rat) ^ nat (bitlen n)" by simp
    then have hi: "x < (2::rat) ^ nat (bitlen n)" using n(3) by linarith
    show ?thesis
      using lo hi k by (simp add: e power_int_nonneg_exp)
  next
    case False
    define r where "r = 1 / x"
    define m where "m = \<lceil>r\<rceil> - 1"
    have r: "1 < r" using False assms by (simp add: r_def)
    have m: "1 \<le> m" "of_int m < r" "r \<le> of_int m + 1"
    proof -
      show "1 \<le> m" using r unfolding m_def by linarith
      show "of_int m < r" unfolding m_def by linarith
      show "r \<le> of_int m + 1" unfolding m_def by linarith
    qed
    from bitlen_bounds [of m] m(1)
    have b: "2 ^ nat (bitlen m - 1) \<le> m" "m < 2 ^ nat (bitlen m)" by simp_all
    have k: "1 \<le> bitlen m"
      using m(1) bitlen_eq_zero_iff [of m] bitlen_nonneg [of m] by linarith
    have e: "binade x = - bitlen m"
      using False by (simp add: binade_def m_def r_def)
    have "m + 1 \<le> 2 ^ nat (bitlen m)" using b(2) by simp
    then have "(of_int (m + 1) :: rat) \<le> of_int (2 ^ nat (bitlen m))" by (simp only: of_int_le_iff)
    then have "of_int m + 1 \<le> (2::rat) ^ nat (bitlen m)" by simp
    then have "r \<le> 2 ^ nat (bitlen m)" using m(3) by linarith
    then have lo: "1 / 2 ^ nat (bitlen m) \<le> x"
      using assms by (simp add: r_def field_simps)
    have "(of_int (2 ^ nat (bitlen m - 1)) :: rat) \<le> of_int m" using b(1) by (simp only: of_int_le_iff)
    then have "(2::rat) ^ nat (bitlen m - 1) \<le> of_int m" by simp
    then have "2 ^ nat (bitlen m - 1) < r" using m(2) by linarith
    then have hi: "x < 1 / 2 ^ nat (bitlen m - 1)"
      using assms by (simp add: r_def field_simps)
    have p1: "(2::rat) powi (- bitlen m) = 1 / 2 ^ nat (bitlen m)"
      using k by (simp add: power_int_minus_divide power_int_nonneg_exp)
    have "(2::rat) powi (- bitlen m + 1) = 2 powi (- (bitlen m - 1))" by simp
    also have "\<dots> = 1 / 2 ^ nat (bitlen m - 1)"
      using k by (simp only: power_int_minus_divide) (simp add: power_int_nonneg_exp)
    finally show ?thesis
      using lo hi p1 by (simp add: e)
  qed
  then show "2 powi binade x \<le> x" and "x < 2 powi (binade x + 1)" by simp_all
qed

lemma binade_ge:
  assumes "0 < x" "2 powi e \<le> x"
  shows "e \<le> binade x"
proof (rule ccontr)
  assume "\<not> e \<le> binade x"
  then have "binade x + 1 \<le> e" by simp
  then have "(2::rat) powi (binade x + 1) \<le> 2 powi e"
    by (intro power_int_increasing) simp_all
  with binade_bounds(2) [OF assms(1)] assms(2) show False by simp
qed

lemma binade_eq:
  assumes "2 powi e \<le> x" "x < 2 powi (e + 1)"
  shows "binade x = e"
proof -
  have "0 < (2::rat) powi e" by simp
  with assms(1) have x: "0 < x" by linarith
  have "e \<le> binade x" using binade_ge [OF x assms(1)] .
  moreover have "binade x \<le> e"
  proof (rule ccontr)
    assume "\<not> binade x \<le> e"
    then have "e + 1 \<le> binade x" by simp
    then have "(2::rat) powi (e + 1) \<le> 2 powi binade x"
      by (intro power_int_increasing) simp_all
    with binade_bounds(1) [OF x] assms(2) show False by simp
  qed
  ultimately show ?thesis by simp
qed

text \<open>Rounding to the nearest integer moves a value by a half at most.\<close>

lemma round_half_even_bounds:
  "x - 1 / 2 \<le> of_int (round_half_even x)" and "of_int (round_half_even x) \<le> x + 1 / 2"
proof -
  define n where "n = \<lfloor>x\<rfloor>"
  have f: "of_int n \<le> x" "x < of_int n + 1" unfolding n_def by linarith+
  have c: "round_half_even x = n \<and> x - of_int n \<le> 1 / 2
      \<or> round_half_even x = n + 1 \<and> 1 / 2 \<le> x - of_int n"
    by (auto simp: round_half_even_def Let_def n_def [symmetric])
  from c f show "x - 1 / 2 \<le> of_int (round_half_even x)" by auto
  from c f show "of_int (round_half_even x) \<le> x + 1 / 2" by auto
qed

lemma round_half_even_ge:
  assumes "of_int m - 1 / 2 < x"
  shows "m \<le> round_half_even x"
proof -
  have "(of_int m :: rat) - 1 < of_int (round_half_even x)"
    using assms round_half_even_bounds(1) [of x] by linarith
  then have "(of_int (m - 1) :: rat) < of_int (round_half_even x)" by simp
  then have "m - 1 < round_half_even x" by (simp only: of_int_less_iff)
  then show ?thesis by simp
qed

text \<open>
  A lower bound of the rounded value: if \<open>x\<close> lies in the binade \<open>e\<close> or above it, and
  above the midpoint below the double \<open>m * 2 powi (e - 52)\<close>, then it rounds to that
  double at least.
\<close>

lemma round_double_lower:
  assumes "2 powi e \<le> x" "- 1022 \<le> e" "(of_int m - 1 / 2) * 2 powi (e - 52) < x" "m \<le> 2 ^ 53"
  shows "of_int m * 2 powi (e - 52) \<le> round_double x"
proof -
  have "0 < (2::rat) powi e" by simp
  with assms(1) have x: "0 < x" by linarith
  define b where "b = binade x"
  have eb: "e \<le> b" unfolding b_def using binade_ge [OF x assms(1)] .
  have s: "max (b - 52) (- 1074) = b - 52" using eb assms(2) by simp
  have rd: "round_double x = of_int (round_half_even (x / 2 powi (b - 52))) * 2 powi (b - 52)"
    by (simp add: round_double_def b_def [symmetric] s Let_def)
  have pos: "0 < (2::rat) powi k" for k by simp
  show ?thesis
  proof (cases "b = e")
    case True
    have "of_int m - 1 / 2 < x / 2 powi (e - 52)"
      using assms(3) pos [of "e - 52"] by (simp add: pos_less_divide_eq)
    then have "m \<le> round_half_even (x / 2 powi (e - 52))" by (rule round_half_even_ge)
    then have "(of_int m :: rat) \<le> of_int (round_half_even (x / 2 powi (e - 52)))"
      by (simp only: of_int_le_iff)
    then show ?thesis
      using pos [of "e - 52"] by (simp add: rd True)
  next
    case False
    with eb have lt: "e + 1 \<le> b" by simp
    have "2 powi b \<le> x" unfolding b_def using binade_bounds(1) [OF x] .
    moreover have "(2::rat) powi b = 2 ^ 52 * 2 powi (b - 52)"
      using power_int_add [of "2::rat" 52 "b - 52"] by simp
    ultimately have "2 ^ 52 \<le> x / 2 powi (b - 52)"
      using pos [of "b - 52"] by (simp add: pos_le_divide_eq)
    moreover define z where "z = x / 2 powi (b - 52)"
    ultimately have "2 ^ 52 \<le> z" by simp
    then have "of_int (2 ^ 52) - 1 / 2 < z" by simp
    then have "2 ^ 52 \<le> round_half_even (x / 2 powi (b - 52))"
      unfolding z_def by (rule round_half_even_ge)
    then have "(of_int (2 ^ 52) :: rat) \<le> of_int (round_half_even (x / 2 powi (b - 52)))"
      by (simp only: of_int_le_iff)
    then have "2 ^ 52 * 2 powi (b - 52) \<le> round_double x"
      using pos [of "b - 52"] by (simp add: rd)
    then have 1: "2 powi b \<le> round_double x"
      using power_int_add [of "2::rat" 52 "b - 52"] by simp
    have "(2::rat) powi (e + 1) \<le> 2 powi b"
      using lt by (intro power_int_increasing) simp_all
    moreover have "(2::rat) powi (e + 1) = 2 ^ 53 * 2 powi (e - 52)"
      using power_int_add [of "2::rat" 53 "e - 52"] by (simp add: add.commute)
    moreover have "of_int m * (2::rat) powi (e - 52) \<le> 2 ^ 53 * 2 powi (e - 52)"
    proof -
      have "(of_int m :: rat) \<le> of_int (2 ^ 53)" using assms(4) by (simp only: of_int_le_iff)
      then show ?thesis using pos [of "e - 52"] by simp
    qed
    ultimately show ?thesis using 1 by linarith
  qed
qed

lemma fl_lower:
  assumes "2 powi e \<le> x" "- 1022 \<le> e" "(of_int m - 1 / 2) * 2 powi (e - 52) < x" "m \<le> 2 ^ 53"
  shows "fl x = FPosInf \<or> (\<exists>y. fl x = FVal y \<and> of_int m * 2 powi (e - 52) \<le> y)"
proof -
  have "0 < (2::rat) powi e" by simp
  with assms(1) have x: "0 < x" by linarith
  show ?thesis
    using round_double_lower [OF assms] x by (simp add: fl_def Let_def)
qed

lemma fl_above_11_10:
  assumes "11 / 10 < x"
  shows "fl x = FPosInf \<or> (\<exists>y. fl x = FVal y \<and> 2476979795053773 / 2251799813685248 \<le> y)"
  using fl_lower [of 0 x 4953959590107546] assms by simp

lemma fl_above_110:
  assumes "2476979795053773 / 2251799813685248 \<le> y"
  shows "fl (y * 100) = FPosInf \<or> (\<exists>p. fl (y * 100) = FVal p \<and> 110 < p)"
proof -
  have "fl (y * 100) = FPosInf
      \<or> (\<exists>p. fl (y * 100) = FVal p \<and> of_int 7740561859543041 * 2 powi (6 - 52) \<le> p)"
    using assms by (intro fl_lower) simp_all
  then show ?thesis by auto
qed



subsection \<open>Bundle sizes away from the boundary\<close>

text \<open>
  What \<^verbatim>\<open>_check_bundle_sizes\<close> does with the other sizes, whenever the entry does not
  raise: a size that is not above its budget yields no violation, and a size above
  110% of its budget yields a violation of severity critical; an asset type outside
  the budget table yields nothing.
\<close>

lemma int_to_float_budgets:
  "int_to_float 300 = Inr 300" "int_to_float 75 = Inr 75" "int_to_float 1000 = Inr 1000"
  "int_to_float 100 = Inr 100"
  by code_simp+

lemma bundle_budget_values:
  assumes "map_of bundle_sizes_budgets asset_type = Some budget"
  shows "budget \<in> {300, 75, 1000, 100}"
  using assms by (auto simp: bundle_sizes_budgets_def split: if_splits)

lemma float_less_weaken: "float_less (FVal u) v \<Longrightarrow> w \<le> u \<Longrightarrow> float_less (FVal w) v"
  by (cases v) auto

lemma bundle_within_budget:
  assumes "check_bundle_entry frepr (asset_type, size_kb) = Inr issues"
    and "map_of bundle_sizes_budgets asset_type = Some budget"
    and "num_of size_kb = Inr n"
    and "float_less (num_val n) (FVal (of_int budget)) \<or> num_val n = FVal (of_int budget)"
  shows "issues = []"
proof -
  have "\<not> num_less (NInt budget) n"
    using assms(4) by (cases "num_val n") (auto simp: num_less_def)
  then show ?thesis
    using assms(1-3) by (auto simp: check_bundle_entry_def bindE_eq_Inr)
qed

lemma bundle_unknown_asset:
  assumes "map_of bundle_sizes_budgets asset_type = None"
  shows "check_bundle_entry frepr (asset_type, size_kb) = Inr []"
  using assms by (simp add: check_bundle_entry_def)

lemma ratio_above_110_percent:
  assumes "num_truediv_int n budget = Inr q"
    and "budget \<in> {300, 75, 1000, 100}"
    and "float_less (FVal (11 / 10 * of_int budget)) (num_val n)"
  shows "q = FPosInf \<or> (\<exists>y. q = FVal y \<and> 2476979795053773 / 2251799813685248 \<le> y)"
proof -
  have bp: "0 < budget" and itf: "int_to_float budget = Inr (of_int budget)"
    using assms(2) int_to_float_budgets by auto
  have bq: "(0::rat) < of_int budget" using bp by simp
  show ?thesis
  proof (cases n)
    case (NBool x)
    have "(1::rat) \<le> 11 / 10 * of_int budget"
      using assms(2) by auto
    with assms(3) NBool show ?thesis
      by (cases x) auto
  next
    case (NInt i)
    with assms(3) have "11 / 10 * of_int budget < (of_int i :: rat)" by simp
    then have "11 / 10 < (of_int i :: rat) / of_int budget"
      using bq by (simp add: pos_less_divide_eq)
    from fl_above_11_10 [OF this] assms(1) NInt bp show ?thesis
      by (auto simp: int_truediv_def split: pyfloat.splits)
  next
    case (NFloat f)
    show ?thesis
    proof (cases f)
      case (FVal v)
      with assms(3) NFloat have "11 / 10 * of_int budget < v" by simp
      then have "11 / 10 < v / of_int budget"
        using bq by (simp add: pos_less_divide_eq)
      from fl_above_11_10 [OF this] assms(1) NFloat FVal bp show ?thesis
        by (auto simp: itf float_div_def)
    next
      case FPosInf
      with assms(1) NFloat bp show ?thesis
        by (auto simp: itf float_div_def)
    next
      case FNegInf
      with assms(3) NFloat show ?thesis by simp
    next
      case FNaN
      with assms(3) NFloat show ?thesis by simp
    qed
  qed
qed

lemma percentage_above_110:
  assumes "float_mul_int q 100 = Inr percentage"
    and "q = FPosInf \<or> (\<exists>y. q = FVal y \<and> 2476979795053773 / 2251799813685248 \<le> y)"
  shows "float_less (FVal 110) percentage"
proof -
  have p: "percentage = float_mul q 100"
    using assms(1) by (simp add: float_mul_int_def int_to_float_budgets)
  from assms(2) show ?thesis
  proof
    assume "q = FPosInf"
    then show ?thesis by (simp add: p)
  next
    assume "\<exists>y. q = FVal y \<and> 2476979795053773 / 2251799813685248 \<le> y"
    then obtain y where y: "q = FVal y" "2476979795053773 / 2251799813685248 \<le> y" by blast
    from fl_above_110 [OF y(2)] show ?thesis
      by (auto simp: p y(1))
  qed
qed

lemma bundle_above_110_percent:
  assumes "check_bundle_entry frepr (asset_type, size_kb) = Inr issues"
    and "map_of bundle_sizes_budgets asset_type = Some budget"
    and "num_of size_kb = Inr n"
    and "float_less (FVal (11 / 10 * of_int budget)) (num_val n)"
  shows "\<exists>rounded.
           issues = [JObj [(''type'', JStr ''critical''),
                           (''metric'', JStr (title asset_type @ '' bundle'')),
                           (''value'', size_kb),
                           (''budget'', JInt budget),
                           (''unit'', JStr ''KB''),
                           (''percentage'', JFloat rounded),
                           (''message'',
                              JStr (asset_type @ '' size ('' @ num_format frepr n
                                    @ ''KB) exceeds budget ('' @ show_int budget @ ''KB)''))]]"
proof -
  have bv: "budget \<in> {300, 75, 1000, 100}"
    using bundle_budget_values [OF assms(2)] .
  from assms(1-3) obtain q percentage where
    q: "num_truediv_int n budget = Inr q" and
    p: "float_mul_int q 100 = Inr percentage" and
    r: "(if num_less (NInt budget) n then
           let level = (if float_less (FVal 110) percentage then ''critical'' else ''warning'') in
           bindE (py_round1 percentage) (\<lambda>rounded.
             Inr [JObj [(''type'', JStr level),
                        (''metric'', JStr (title asset_type @ '' bundle'')),
                        (''value'', size_kb),
                        (''budget'', JInt budget),
                        (''unit'', JStr ''KB''),
                        (''percentage'', JFloat rounded),
                        (''message'',
                           JStr (asset_type @ '' size ('' @ num_format frepr n
                                 @ ''KB) exceeds budget ('' @ show_int budget @ ''KB)''))]])
         else Inr []) = Inr issues"
    by (auto simp: check_bundle_entry_def bindE_eq_Inr)
  have c: "float_less (FVal 110) percentage"
    using percentage_above_110 [OF p ratio_above_110_percent [OF q bv assms(4)]] .
  have "(of_int budget :: rat) \<le> 11 / 10 * of_int budget"
    using bv by auto
  from float_less_weaken [OF assms(4) this] have o: "num_less (NInt budget) n"
    by (simp add: num_less_def)
  from r show ?thesis
    by (auto simp: o c bindE_eq_Inr)
qed

end
